theory Spec2Isabelle
  imports Complex_Main "HOL-Library.AList"
begin

section \<open>Python values used by the retriever\<close>

text \<open>
  Python strings are modelled as \<open>string\<close>, Python's unbounded integers as \<open>int\<close>
  and Python floats (timestamps, delays) as \<open>real\<close>: rounding and overflow of
  binary floating point are not part of the model.
\<close>

text \<open>
  A raised exception, with its name or message: \<open>PyException\<close> is an instance of a
  subclass of \<^verbatim>\<open>Exception\<close> (the errors of the browser, \<^verbatim>\<open>OverflowError\<close>),
  \<open>PyBaseException\<close> one of those that derive from \<^verbatim>\<open>BaseException\<close> only
  (\<^verbatim>\<open>KeyboardInterrupt\<close>, \<^verbatim>\<open>SystemExit\<close>, \<^verbatim>\<open>GeneratorExit\<close>).
\<close>

datatype py_exception = PyException string | PyBaseException string

text \<open>
  \<^verbatim>\<open>x ** n\<close> for a float \<open>x\<close> and a positive integer \<open>n\<close>. Python turns \<open>n\<close> into
  a float and raises \<^verbatim>\<open>OverflowError\<close> when \<open>n\<close> is beyond the largest float, and when
  the power is. Below that bound the power is taken as the real number.
\<close>

definition float_max :: real where
  "float_max = (2 - 1 / 2 ^ 52) * 2 ^ 1023"

definition float_pow :: "real \<Rightarrow> nat \<Rightarrow> py_exception + real" where
  "float_pow x n =
     (if float_max < of_nat n then Inl (PyException ''OverflowError'')
      else if float_max < \<bar>x ^ n\<bar> then Inl (PyException ''OverflowError'')
      else Inr (x ^ n))"

text \<open>\<^verbatim>\<open>sep.join(xs)\<close>\<close>

fun join :: "string \<Rightarrow> string list \<Rightarrow> string" where
  "join sep [] = []"
| "join sep [x] = x"
| "join sep (x # y # ys) = x @ sep @ join sep (y # ys)"

text \<open>\<^verbatim>\<open>str(n)\<close> for a non-negative integer, and for any integer.\<close>

fun show_nat :: "nat \<Rightarrow> string" where
  "show_nat n = (if n < 10 then [''0123456789'' ! n]
                 else show_nat (n div 10) @ [''0123456789'' ! (n mod 10)])"

declare show_nat.simps [simp del]

definition show_int :: "int \<Rightarrow> string" where
  "show_int i = (if i < 0 then ''-'' @ show_nat (nat (- i)) else show_nat (nat i))"

text \<open>
  The format \<^verbatim>\<open>f"{x:.0f}"\<close>: the nearest integer, a tie going to the even one, with
  the sign of \<open>x\<close>.
\<close>

definition round_half_even :: "real \<Rightarrow> int" where
  "round_half_even x =
     (let f = \<lfloor>x\<rfloor>; d = x - of_int f in
      if d < 1 / 2 then f
      else if 1 / 2 < d then f + 1
      else if even f then f else f + 1)"

definition fmt_0f :: "real \<Rightarrow> string" where
  "fmt_0f x = (if x < 0 then ''-'' else '''') @ show_nat (nat (round_half_even \<bar>x\<bar>))"

section \<open>The rate limiter (rate\_limiter.py)\<close>

text \<open>The dictionary \<^verbatim>\<open>self.limits\<close>, one field for each key.\<close>

record limits =
  searches_per_day :: int
  profiles_per_day :: int
  connection_requests_per_day :: int
  searches_per_hour :: int
  profiles_per_hour :: int
  min_delay_between_searches :: real
  max_delay_between_searches :: real
  min_delay_between_profiles :: real
  max_delay_between_profiles :: real
  backoff_multiplier :: real
  max_backoff :: real
  jitter_range :: real
  max_continuous_searches :: int
  break_duration_min :: real
  break_duration_max :: real

definition default_limits :: limits where
  "default_limits = \<lparr>
     searches_per_day = 15,
     profiles_per_day = 30,
     connection_requests_per_day = 20,
     searches_per_hour = 3,
     profiles_per_hour = 10,
     min_delay_between_searches = 45,
     max_delay_between_searches = 180,
     min_delay_between_profiles = 5,
     max_delay_between_profiles = 30,
     backoff_multiplier = 2,
     max_backoff = 3600,
     jitter_range = 2 / 10,
     max_continuous_searches = 5,
     break_duration_min = 300,
     break_duration_max = 900 \<rparr>"

text \<open>The persisted dictionary \<^verbatim>\<open>self.state\<close>, one field for each key.\<close>

record RateLimiterState =
  daily_searches :: int
  daily_profiles :: int
  daily_connections :: int
  hourly_searches :: int
  hourly_profiles :: int
  last_search_time :: real
  last_profile_time :: real
  last_reset_date :: string
  last_hour_reset :: int
  consecutive_failures :: int
  total_failures_today :: int
  last_break_time :: real
  continuous_searches :: int
  blocked_until :: real

text \<open>
  The \<^verbatim>\<open>RateLimiter\<close> object. \<^verbatim>\<open>continuous_actions\<close> is an attribute of the object,
  set in \<^verbatim>\<open>__init__\<close>; it is not a key of the persisted state. \<^verbatim>\<open>save_state\<close> writes
  \<open>state\<close> to the JSON file and changes nothing in memory, so it has no counterpart
  here.
\<close>

record RateLimiter =
  limits :: limits
  state :: RateLimiterState
  session_start :: real
  continuous_actions :: int

text \<open>
  What the operations read from the system: \<^verbatim>\<open>time.time()\<close>,
  \<^verbatim>\<open>str(datetime.now().date())\<close> and \<^verbatim>\<open>datetime.now().hour\<close>. One operation reads
  the time once.
\<close>

record clock =
  now_time :: real
  now_date :: string
  now_hour :: int

text \<open>The default state of \<^verbatim>\<open>load_state\<close> and the object built by \<^verbatim>\<open>__init__\<close>.\<close>

definition default_state :: "clock \<Rightarrow> RateLimiterState" where
  "default_state c = \<lparr>
     daily_searches = 0,
     daily_profiles = 0,
     daily_connections = 0,
     hourly_searches = 0,
     hourly_profiles = 0,
     last_search_time = 0,
     last_profile_time = 0,
     last_reset_date = now_date c,
     last_hour_reset = now_hour c,
     consecutive_failures = 0,
     total_failures_today = 0,
     last_break_time = 0,
     continuous_searches = 0,
     blocked_until = 0 \<rparr>"

definition new_limiter :: "clock \<Rightarrow> RateLimiter" where
  "new_limiter c = \<lparr>
     limits = default_limits,
     state = default_state c,
     session_start = now_time c,
     continuous_actions = 0 \<rparr>"

definition reset_if_needed :: "clock \<Rightarrow> RateLimiter \<Rightarrow> RateLimiter" where
  "reset_if_needed c rl =
     (let rl1 =
        (if now_date c \<noteq> last_reset_date (state rl)
         then rl\<lparr> state := (state rl)\<lparr>
                      daily_searches := 0,
                      daily_profiles := 0,
                      daily_connections := 0,
                      total_failures_today := 0,
                      last_reset_date := now_date c,
                      consecutive_failures := max 0 (consecutive_failures (state rl) - 1) \<rparr>,
                  continuous_actions := 0 \<rparr>
         else rl)
      in
        if now_hour c \<noteq> last_hour_reset (state rl1)
        then rl1\<lparr> state := (state rl1)\<lparr>
                      hourly_searches := 0,
                      hourly_profiles := 0,
                      last_hour_reset := now_hour c \<rparr> \<rparr>
        else rl1)"

text \<open>
  \<^verbatim>\<open>random.uniform(a, b)\<close> is \<^verbatim>\<open>a + (b - a) * random()\<close>; the draw \<open>u\<close> of
  \<^verbatim>\<open>random()\<close> lies in \<open>[0, 1)\<close>. \<^verbatim>\<open>random.gauss(mu, sigma)\<close> is \<^verbatim>\<open>mu + z * sigma\<close>
  for a standard normal draw \<open>z\<close>, which may be any number.
\<close>

definition uniform :: "real \<Rightarrow> real \<Rightarrow> real \<Rightarrow> real" where
  "uniform u a b = a + (b - a) * u"

definition gauss :: "real \<Rightarrow> real \<Rightarrow> real \<Rightarrow> real" where
  "gauss z mu sigma = mu + z * sigma"

text \<open>
  \<^verbatim>\<open>can_search\<close> returns its answer, or the exception that the power of the backoff
  raises, and the object, which it changes through the rollover and when a break has
  been completed. \<open>u\<close> is the draw behind \<^verbatim>\<open>random.uniform\<close>.
\<close>

definition can_search ::
  "clock \<Rightarrow> real \<Rightarrow> RateLimiter \<Rightarrow> (py_exception + bool \<times> string) \<times> RateLimiter" where
  "can_search c u rl0 =
     (let rl = reset_if_needed c rl0; st = state rl; L = limits rl; now = now_time c in
      if now < blocked_until st
      then (Inr (False, ''Temporarily blocked for '' @ fmt_0f (blocked_until st - now)
                          @ '' seconds due to failures''), rl)
      else if searches_per_day L \<le> daily_searches st
      then (Inr (False, ''Daily search limit reached ('' @ show_int (searches_per_day L)
                          @ '' searches)''), rl)
      else if searches_per_hour L \<le> hourly_searches st
      then (Inr (False, ''Hourly search limit reached ('' @ show_int (searches_per_hour L)
                          @ '' searches)''), rl)
      else
        let need_break = (max_continuous_searches L \<le> continuous_searches st);
            time_since_break = now - last_break_time st;
            required_break = uniform u (break_duration_min L) (break_duration_max L)
        in
        if need_break \<and> time_since_break < required_break
        then (Inr (False, ''Break required. Please wait ''
                            @ fmt_0f (required_break - time_since_break) @ '' seconds''), rl)
        else
          let rl' = (if need_break
                     then rl\<lparr> state := st\<lparr> continuous_searches := 0,
                                              last_break_time := now \<rparr> \<rparr>
                     else rl);
              st' = state rl';
              time_since_last = now - last_search_time st'
          in
          case (if 0 < consecutive_failures st'
                then float_pow (backoff_multiplier L) (nat (consecutive_failures st'))
                else Inr 1) of
            Inl e \<Rightarrow> (Inl e, rl')
          | Inr backoff_factor \<Rightarrow>
              let min_delay =
                    (if 0 < consecutive_failures st'
                     then min (min_delay_between_searches L * backoff_factor) (max_backoff L)
                     else min_delay_between_searches L)
              in
              if time_since_last < min_delay
              then (Inr (False, ''Please wait '' @ fmt_0f (min_delay - time_since_last)
                                  @ '' seconds before next search''), rl')
              else if 10 \<le> total_failures_today st'
              then (Inr (False, ''Too many failures today. Please try again tomorrow''), rl')
              else (Inr (True, ''OK''), rl'))"

definition can_view_profile :: "clock \<Rightarrow> RateLimiter \<Rightarrow> (bool \<times> string) \<times> RateLimiter" where
  "can_view_profile c rl0 =
     (let rl = reset_if_needed c rl0; st = state rl; L = limits rl; now = now_time c in
      if profiles_per_day L \<le> daily_profiles st
      then ((False, ''Daily profile view limit reached ('' @ show_int (profiles_per_day L)
                      @ '' profiles)''), rl)
      else if profiles_per_hour L \<le> hourly_profiles st
      then ((False, ''Hourly profile view limit reached ('' @ show_int (profiles_per_hour L)
                      @ '' profiles)''), rl)
      else
        let time_since_last = now - last_profile_time st;
            min_delay = min_delay_between_profiles L
        in
        if time_since_last < min_delay
        then ((False, ''Please wait '' @ fmt_0f (min_delay - time_since_last)
                        @ '' seconds before next profile view''), rl)
        else ((True, ''OK''), rl))"

definition record_search :: "clock \<Rightarrow> bool \<Rightarrow> RateLimiter \<Rightarrow> RateLimiter" where
  "record_search c success rl =
     (let now = now_time c;
          st1 = (state rl)\<lparr>
                  daily_searches := daily_searches (state rl) + 1,
                  hourly_searches := hourly_searches (state rl) + 1,
                  last_search_time := now,
                  continuous_searches := continuous_searches (state rl) + 1 \<rparr>
      in
      if success
      then rl\<lparr> state := st1\<lparr> consecutive_failures := 0 \<rparr> \<rparr>
      else
        let st2 = st1\<lparr> consecutive_failures := consecutive_failures st1 + 1,
                        total_failures_today := total_failures_today st1 + 1 \<rparr>
        in
        if 3 \<le> consecutive_failures st2
        then
          let block_duration = min (300 * 2 ^ nat (consecutive_failures st2 - 3)) (3600 :: int)
          in rl\<lparr> state := st2\<lparr> blocked_until := now + of_int block_duration \<rparr> \<rparr>
        else rl\<lparr> state := st2 \<rparr>)"


text \<open>
  The branch of \<^verbatim>\<open>get_delay\<close> on the action type, which chooses \<^verbatim>\<open>min_delay\<close> and
  \<^verbatim>\<open>max_delay\<close>.
\<close>

definition delay_range :: "string \<Rightarrow> limits \<Rightarrow> real \<times> real" where
  "delay_range action_type L =
     (if action_type = ''search''
      then (min_delay_between_searches L, max_delay_between_searches L)
      else (min_delay_between_profiles L, max_delay_between_profiles L))"

text \<open>
  \<^verbatim>\<open>get_delay\<close>: \<open>z\<close> is the draw behind \<^verbatim>\<open>random.gauss\<close>, \<open>u\<close> the one behind
  \<^verbatim>\<open>random.uniform\<close>. The value is the delay, or the exception that the power of the
  backoff raises.
\<close>

definition get_delay :: "real \<Rightarrow> real \<Rightarrow> string \<Rightarrow> RateLimiter \<Rightarrow> py_exception + real" where
  "get_delay z u action_type rl =
     (let L = limits rl;
          min_delay = fst (delay_range action_type L);
          max_delay = snd (delay_range action_type L);
          mean = (min_delay + max_delay) / 2;
          std_dev = (max_delay - min_delay) / 6;
          base_delay = max min_delay (min max_delay (gauss z mean std_dev));
          jitter_amount = base_delay * jitter_range L;
          jitter = uniform u (- jitter_amount) jitter_amount
      in
      case (if 0 < consecutive_failures (state rl)
            then float_pow (backoff_multiplier L) (nat (consecutive_failures (state rl)))
            else Inr 1) of
        Inl e \<Rightarrow> Inl e
      | Inr backoff_factor \<Rightarrow>
          let base_delay' =
                (if 0 < consecutive_failures (state rl)
                 then min (base_delay * backoff_factor) (max_backoff L)
                 else base_delay)
          in Inr (max min_delay (base_delay' + jitter)))"


definition emergency_stop :: "clock \<Rightarrow> RateLimiter \<Rightarrow> RateLimiter" where
  "emergency_stop c rl =
     rl\<lparr> state := (state rl)\<lparr> blocked_until := now_time c + 3600,
                                consecutive_failures := 5 \<rparr> \<rparr>"







text \<open>Successive calls of \<^verbatim>\<open>can_search\<close>, each with its clock and its random draw.\<close>

fun after_calls :: "(clock \<times> real) list \<Rightarrow> RateLimiter \<Rightarrow> RateLimiter" where
  "after_calls [] rl = rl"
| "after_calls ((c, u) # cs) rl = after_calls cs (snd (can_search c u rl))"

section \<open>Strings of the retriever (linkedin\_sales\_navigator.py)\<close>

text \<open>
  A character of the model is a code point below 256. On these, \<^verbatim>\<open>str.isalnum\<close>,
  \<^verbatim>\<open>str.lower\<close> and the white space of \<^verbatim>\<open>str.split()\<close> are as follows.
\<close>

definition py_isalnum :: "char \<Rightarrow> bool" where
  "py_isalnum c =
     (let n = (of_char c :: nat) in
      (48 \<le> n \<and> n \<le> 57) \<or> (65 \<le> n \<and> n \<le> 90) \<or> (97 \<le> n \<and> n \<le> 122)
      \<or> n = 170 \<or> (178 \<le> n \<and> n \<le> 179) \<or> n = 181 \<or> (185 \<le> n \<and> n \<le> 186)
      \<or> (188 \<le> n \<and> n \<le> 190) \<or> (192 \<le> n \<and> n \<le> 214) \<or> (216 \<le> n \<and> n \<le> 246)
      \<or> 248 \<le> n)"

definition py_isspace :: "char \<Rightarrow> bool" where
  "py_isspace c =
     (let n = (of_char c :: nat) in
      (9 \<le> n \<and> n \<le> 13) \<or> (28 \<le> n \<and> n \<le> 32) \<or> n = 133 \<or> n = 160)"

definition py_lower_char :: "char \<Rightarrow> char" where
  "py_lower_char c =
     (let n = (of_char c :: nat) in
      if (65 \<le> n \<and> n \<le> 90) \<or> (192 \<le> n \<and> n \<le> 214) \<or> (216 \<le> n \<and> n \<le> 222)
      then char_of (n + 32) else c)"

definition py_lower :: "string \<Rightarrow> string" where
  "py_lower s = map py_lower_char s"

text \<open>\<^verbatim>\<open>s.split()\<close>: the maximal runs of characters that are not white space.\<close>

fun split_from :: "string \<Rightarrow> string \<Rightarrow> string list" where
  "split_from word [] = (if word = [] then [] else [word])"
| "split_from word (c # cs) =
     (if py_isspace c
      then (if word = [] then split_from [] cs else word # split_from [] cs)
      else split_from (word @ [c]) cs)"

definition py_split :: "string \<Rightarrow> string list" where
  "py_split s = split_from [] s"

text \<open>
  \<^verbatim>\<open>urllib.parse.quote_plus\<close>: letters, digits and \<^verbatim>\<open>_.-~\<close> stay, a space becomes
  \<^verbatim>\<open>+\<close>, any other character becomes the bytes of its UTF-8 encoding, each as
  \<^verbatim>\<open>%XX\<close>.
\<close>

definition hex2 :: "nat \<Rightarrow> string" where
  "hex2 n = [''0123456789ABCDEF'' ! (n div 16), ''0123456789ABCDEF'' ! (n mod 16)]"

definition quote_char :: "char \<Rightarrow> string" where
  "quote_char c =
     (let n = (of_char c :: nat) in
      if (48 \<le> n \<and> n \<le> 57) \<or> (65 \<le> n \<and> n \<le> 90) \<or> (97 \<le> n \<and> n \<le> 122)
         \<or> c \<in> set ''_.-~''
      then [c]
      else if c = CHR '' '' then ''+''
      else if n < 128 then ''%'' @ hex2 n
      else ''%'' @ hex2 (192 + n div 64) @ ''%'' @ hex2 (128 + n mod 64))"

definition quote_plus :: "string \<Rightarrow> string" where
  "quote_plus s = concat (map quote_char s)"

section \<open>Intent, keywords and filters\<close>

text \<open>
  The dictionary built by \<^verbatim>\<open>parse_intent\<close>, one field for each key, and the
  dictionary returned by \<^verbatim>\<open>parse_query_filters\<close>. The dictionaries that
  \<^verbatim>\<open>search_with_progressive_fallback\<close> builds for its later strategies have the keys
  \<^verbatim>\<open>keywords\<close> and \<^verbatim>\<open>native_filters\<close> only. A Python dictionary keeps the order in
  which its keys were inserted, so \<^verbatim>\<open>native_filters\<close> is an association list. The
  key \<^verbatim>\<open>keywords\<close> is the field \<open>search_keywords\<close>.
\<close>

record Intent =
  roles :: "string list"
  skills :: "string list"
  locations :: "string list"
  company_criteria :: "(string \<times> string) list"
  seniority :: "string list"
  keywords_raw :: string

record url_filters =
  search_keywords :: string
  native_filters :: "(string \<times> string) list"

record SearchFilters = url_filters +
  intent :: Intent

text \<open>
  \<^verbatim>\<open>_extract_simple_keywords\<close>. The set \<^verbatim>\<open>stop_words\<close> of the source has seven more
  entries; each of them holds a character that is not alphanumeric, so no cleaned word
  equals one of them.
\<close>

definition stop_words :: "string list" where
  "stop_words = [''the'', ''and'', ''or'', ''in'', ''on'', ''at'', ''to'', ''for'', ''of'',
                 ''with'', ''by'']"

fun collect_keywords :: "string list \<Rightarrow> string list" where
  "collect_keywords [] = []"
| "collect_keywords (word # words) =
     (let clean_word = filter py_isalnum word in
      if 2 < length clean_word \<and> clean_word \<notin> set stop_words
      then clean_word # collect_keywords words
      else collect_keywords words)"

definition extract_simple_keywords :: "string \<Rightarrow> string list" where
  "extract_simple_keywords query = collect_keywords (py_split (py_lower query))"

text \<open>The role between double quotes, as the f-string of the source writes it.\<close>

definition quoted :: "string \<Rightarrow> string" where
  "quoted role = [CHR 0x22] @ role @ [CHR 0x22]"

definition generate_optimized_keywords :: "Intent \<Rightarrow> string" where
  "generate_optimized_keywords i =
     (let keyword_parts1 =
            (if roles i \<noteq> []
             then [''('' @ join '' OR '' (map quoted (take 2 (roles i))) @ '')'']
             else []);
          keyword_parts2 =
            (if skills i \<noteq> []
             then (let skills_string = join '' OR '' (take 2 (skills i)) in
                   if keyword_parts1 \<noteq> []
                   then keyword_parts1 @ [''AND ('' @ skills_string @ '')'']
                   else keyword_parts1 @ [skills_string])
             else keyword_parts1)
      in
      if keyword_parts2 = []
      then join '' OR '' (take 2 (extract_simple_keywords (keywords_raw i)))
      else join '' '' keyword_parts2)"

text \<open>\<^verbatim>\<open>build_sales_nav_url\<close>; \<open>native_param\<close> is the body of its loop.\<close>

definition native_param :: "string \<times> string \<Rightarrow> string list" where
  "native_param kv =
     (let filter_key = fst kv; filter_value = snd kv in
      if filter_value \<noteq> []
      then (if filter_key = ''currentJobTitle'' \<and> filter_value = ''true''
            then [''currentJobTitle=true'']
            else [filter_key @ ''='' @ quote_plus filter_value])
      else [])"

definition build_sales_nav_url :: "'a url_filters_scheme \<Rightarrow> string \<Rightarrow> string" where
  "build_sales_nav_url filters search_type =
     (let base_url = ''https://www.linkedin.com/sales/search/'' @ search_type;
          params = (if search_keywords filters \<noteq> []
                    then [''keywords='' @ quote_plus (search_keywords filters)] else [])
                   @ concat (map native_param (native_filters filters))
      in if params \<noteq> [] then base_url @ ''?'' @ join ''&'' params else base_url)"

text \<open>\<^verbatim>\<open>_create_or_broadening_query\<close> and \<^verbatim>\<open>_create_or_broadening_filters\<close>.\<close>

definition create_or_broadening_query :: "Intent \<Rightarrow> string" where
  "create_or_broadening_query i =
     (let or_parts =
            (if roles i \<noteq> []
             then [''('' @ join '' OR '' (map quoted (take 3 (roles i))) @ '')''] else [])
          @ (if skills i \<noteq> []
             then [''('' @ join '' OR '' (take 3 (skills i)) @ '')''] else [])
          @ (if seniority i \<noteq> []
             then [''('' @ join '' OR ''
                      (take 3 [''founder'', ''CEO'', ''CTO'', ''director'', ''manager'']) @ '')'']
             else [])
          @ (if (case map_of (company_criteria i) ''funding'' of
                   None \<Rightarrow> False | Some v \<Rightarrow> v \<noteq> [])
             then [''('' @ join '' OR '' [''startup'', ''funded'', ''investment''] @ '')'']
             else [])
      in
      if or_parts = [] then ''developer OR engineer OR founder OR manager''
      else join '' OR '' (take 3 or_parts))"

definition create_or_broadening_filters :: "Intent \<Rightarrow> (string \<times> string) list" where
  "create_or_broadening_filters i =
     (if locations i \<noteq> [] then [(''geoIncluded'', join '','' (locations i))] else [])
     @ [(''currentJobTitle'', ''true'')]"

section \<open>The progressive search\<close>

text \<open>
  A result is a Python dictionary from strings to values: the extracted fields, and the
  keys that the search adds.
\<close>

datatype pyval =
  PStr string | PBool bool | PList "pyval list" | PDict "(string \<times> pyval) list"

type_synonym result = "(string \<times> pyval) list"

text \<open>
  The browser. \<^verbatim>\<open>self.driver.get(url)\<close> followed by \<^verbatim>\<open>self._extract_search_results\<close>
  is one function of the level of the ladder at which it is called, the URL, the search
  type and the maximal count: \<open>Inl\<close> when \<^verbatim>\<open>get\<close> raises, otherwise the list that the
  extraction returns (which catches its own exceptions). The level stands for the state
  of the browser at that call.
\<close>

type_synonym fetch_extract = "nat \<Rightarrow> string \<Rightarrow> string \<Rightarrow> int \<Rightarrow> py_exception + result list"

text \<open>What the search does to the outside, in order.\<close>

datatype event =
  DriverGet nat string
| Sleep nat
| ExtractSearchResults nat string int

text \<open>
  The process: the rate limiter it holds and the log of what was done to the browser.
\<close>

record process =
  rate_limiter :: RateLimiter
  driver_log :: "event list"

text \<open>
  The body of one \<^verbatim>\<open>try\<close> block: build the URL, \<^verbatim>\<open>get\<close> it, sleep, extract, and
  return the results, after \<open>tag\<close> has been applied to each, when there is at least one. The
  value is \<open>Inl e\<close> when \<open>e\<close> was raised, \<open>Inr (Some rs)\<close> when \<^verbatim>\<open>return rs\<close> was
  reached and \<open>Inr None\<close> when the block ended without returning.
\<close>

definition run_search ::
  "fetch_extract \<Rightarrow> nat \<Rightarrow> 'a url_filters_scheme \<Rightarrow> string \<Rightarrow> nat \<Rightarrow> int \<Rightarrow> (result \<Rightarrow> result)
   \<Rightarrow> (py_exception + result list option) \<times> event list" where
  "run_search page level filters search_type wait count tag =
     (let search_url = build_sales_nav_url filters search_type in
      case page level search_url search_type count of
        Inl e \<Rightarrow> (Inl e, [DriverGet level search_url])
      | Inr results \<Rightarrow>
          (Inr (if 0 < length results then Some (map tag results) else None),
           [DriverGet level search_url, Sleep wait,
            ExtractSearchResults level search_type count]))"

text \<open>
  \<^verbatim>\<open>except Exception as e: logger.error(...)\<close>: an instance of \<^verbatim>\<open>Exception\<close> ends
  here, any other exception goes on.
\<close>

definition except_Exception ::
  "(py_exception + result list option) \<times> event list
   \<Rightarrow> (py_exception + result list option) \<times> event list" where
  "except_Exception body =
     (case fst body of
        Inl (PyException m) \<Rightarrow> (Inr None, snd body)
      | Inl (PyBaseException m) \<Rightarrow> (Inl (PyBaseException m), snd body)
      | Inr r \<Rightarrow> (Inr r, snd body))"

text \<open>
  A statement followed by the rest of the function: an exception or a \<^verbatim>\<open>return\<close>
  ends the function, otherwise the rest runs.
\<close>

definition or_else ::
  "(py_exception + result list option) \<times> event list
   \<Rightarrow> (py_exception + result list) \<times> event list
   \<Rightarrow> (py_exception + result list) \<times> event list" where
  "or_else step rest =
     (case fst step of
        Inl e \<Rightarrow> (Inl e, snd step)
      | Inr (Some rs) \<Rightarrow> (Inr rs, snd step)
      | Inr None \<Rightarrow> (fst rest, snd step @ snd rest))"

text \<open>\<^verbatim>\<open>time.sleep(15)\<close> between two strategies.\<close>

definition pause ::
  "nat \<Rightarrow> (py_exception + result list) \<times> event list
   \<Rightarrow> (py_exception + result list) \<times> event list" where
  "pause n rest = (fst rest, Sleep n # snd rest)"

text \<open>\<^verbatim>\<open>filters.get("native_filters", {}).get("geoIncluded", "")\<close>\<close>

definition geo_included :: "'a url_filters_scheme \<Rightarrow> string" where
  "geo_included filters =
     (case map_of (native_filters filters) ''geoIncluded'' of None \<Rightarrow> [] | Some v \<Rightarrow> v)"

text \<open>The dictionaries of the strategies 2 to 5, under the names they have in the source.\<close>

definition simplified_filters :: "SearchFilters \<Rightarrow> string list \<Rightarrow> url_filters" where
  "simplified_filters filters simple_keywords =
     \<lparr> search_keywords = join '' OR '' (take 2 simple_keywords),
       native_filters = [(''geoIncluded'', geo_included filters),
                         (''currentJobTitle'', ''true'')] \<rparr>"

definition minimal_filters :: "SearchFilters \<Rightarrow> string list \<Rightarrow> url_filters" where
  "minimal_filters filters simple_keywords =
     \<lparr> search_keywords = (if simple_keywords \<noteq> [] then hd simple_keywords else ''developer''),
       native_filters = [(''geoIncluded'', geo_included filters)] \<rparr>"

definition broadening_filters :: "Intent \<Rightarrow> url_filters" where
  "broadening_filters i =
     \<lparr> search_keywords = create_or_broadening_query i,
       native_filters = create_or_broadening_filters i \<rparr>"

definition ultra_broad_filters :: "string list \<Rightarrow> url_filters" where
  "ultra_broad_filters locs =
     \<lparr> search_keywords = ''developer OR manager OR founder'',
       native_filters = [(''geoIncluded'', join '','' locs),
                         (''currentJobTitle'', ''true'')] \<rparr>"

text \<open>The keys that strategies 4 and 5 add to each result.\<close>

definition py_strings :: "string list \<Rightarrow> pyval" where
  "py_strings xs = PList (map PStr xs)"

definition py_string_dict :: "(string \<times> string) list \<Rightarrow> pyval" where
  "py_string_dict kvs = PDict (map (\<lambda>kv. (fst kv, PStr (snd kv))) kvs)"

definition intent_dict :: "Intent \<Rightarrow> pyval" where
  "intent_dict i =
     PDict [(''roles'', py_strings (roles i)),
            (''skills'', py_strings (skills i)),
            (''locations'', py_strings (locations i)),
            (''company_criteria'', py_string_dict (company_criteria i)),
            (''seniority'', py_strings (seniority i)),
            (''keywords_raw'', PStr (keywords_raw i))]"

definition tag_or_broadening :: "Intent \<Rightarrow> result \<Rightarrow> result" where
  "tag_or_broadening i result =
     AList.update ''original_criteria''
       (PDict [(''roles'', py_strings (roles i)),
               (''locations'', py_strings (locations i)),
               (''company_criteria'', py_string_dict (company_criteria i)),
               (''seniority'', py_strings (seniority i)),
               (''skills'', py_strings (skills i))])
       (AList.update ''ai_filter_needed'' (PBool True) result)"

definition tag_ultra_broad :: "Intent \<Rightarrow> result \<Rightarrow> result" where
  "tag_ultra_broad i result =
     AList.update ''original_criteria'' (intent_dict i)
       (AList.update ''search_strategy'' (PStr ''ultra_broad'')
         (AList.update ''ai_filter_needed'' (PBool True) result))"

text \<open>The bodies of the five \<^verbatim>\<open>try\<close> blocks.\<close>

definition strategy1 ::
  "fetch_extract \<Rightarrow> SearchFilters \<Rightarrow> string \<Rightarrow> int
   \<Rightarrow> (py_exception + result list option) \<times> event list" where
  "strategy1 page filters search_type max_results =
     run_search page 1 filters search_type 5 max_results id"

definition strategy2 ::
  "fetch_extract \<Rightarrow> SearchFilters \<Rightarrow> string list \<Rightarrow> string \<Rightarrow> int
   \<Rightarrow> (py_exception + result list option) \<times> event list" where
  "strategy2 page filters simple_keywords search_type max_results =
     (if simple_keywords \<noteq> []
      then run_search page 2 (simplified_filters filters simple_keywords) search_type 10
             max_results id
      else (Inr None, []))"

definition strategy3 ::
  "fetch_extract \<Rightarrow> SearchFilters \<Rightarrow> string list \<Rightarrow> string \<Rightarrow> int
   \<Rightarrow> (py_exception + result list option) \<times> event list" where
  "strategy3 page filters simple_keywords search_type max_results =
     run_search page 3 (minimal_filters filters simple_keywords) search_type 5 max_results id"

definition strategy4 ::
  "fetch_extract \<Rightarrow> Intent \<Rightarrow> string \<Rightarrow> int
   \<Rightarrow> (py_exception + result list option) \<times> event list" where
  "strategy4 page i search_type max_results =
     run_search page 4 (broadening_filters i) search_type 5 (max_results * 2)
       (tag_or_broadening i)"

definition strategy5 ::
  "fetch_extract \<Rightarrow> Intent \<Rightarrow> string \<Rightarrow> int
   \<Rightarrow> (py_exception + result list option) \<times> event list" where
  "strategy5 page i search_type max_results =
     (if locations i \<noteq> []
      then run_search page 5 (ultra_broad_filters (locations i)) search_type 10
             (max_results * 3) (tag_ultra_broad i)
      else (Inr None, []))"

text \<open>
  \<^verbatim>\<open>search_with_progressive_fallback\<close>. The dictionary \<^verbatim>\<open>filters\<close> is the one that
  \<^verbatim>\<open>parse_query_filters\<close> returns, so the defaults of its \<^verbatim>\<open>get\<close> calls on the keys
  \<^verbatim>\<open>intent\<close> and \<^verbatim>\<open>keywords_raw\<close> are never taken. The function returns the list, or
  the exception it lets through, and the process after it.
\<close>

definition ladder ::
  "fetch_extract \<Rightarrow> SearchFilters \<Rightarrow> string \<Rightarrow> int
   \<Rightarrow> (py_exception + result list) \<times> event list" where
  "ladder page filters search_type max_results =
     (let i = intent filters;
          simple_keywords = extract_simple_keywords (keywords_raw i)
      in
      or_else (except_Exception (strategy1 page filters search_type max_results))
     (pause 15
     (or_else (except_Exception
                 (strategy2 page filters simple_keywords search_type max_results))
     (pause 15
     (or_else (except_Exception
                 (strategy3 page filters simple_keywords search_type max_results))
     (pause 15
     (or_else (except_Exception (strategy4 page i search_type max_results))
     (pause 15
     (or_else (except_Exception (strategy5 page i search_type max_results))
     (Inr [], []))))))))))"

definition search_with_progressive_fallback ::
  "fetch_extract \<Rightarrow> SearchFilters \<Rightarrow> string \<Rightarrow> int \<Rightarrow> process
   \<Rightarrow> (py_exception + result list) \<times> process" where
  "search_with_progressive_fallback page filters search_type max_results p =
     (let r = ladder page filters search_type max_results in
      (fst r, p\<lparr> driver_log := driver_log p @ snd r \<rparr>))"

text \<open>The levels of the ladder at which the browser was asked for a page, in order.\<close>

fun levels_attempted :: "event list \<Rightarrow> nat list" where
  "levels_attempted [] = []"
| "levels_attempted (DriverGet level url # es) = level # levels_attempted es"
| "levels_attempted (e # es) = levels_attempted es"

text \<open>
  The request that the ladder makes at a level: whether the level is left out, the URL,
  the maximal count and the keys added to each result.
\<close>

definition level_skipped :: "SearchFilters \<Rightarrow> nat \<Rightarrow> bool" where
  "level_skipped filters k =
     ((k = 2 \<and> extract_simple_keywords (keywords_raw (intent filters)) = [])
      \<or> (k = 5 \<and> locations (intent filters) = []))"

definition level_url :: "SearchFilters \<Rightarrow> string \<Rightarrow> nat \<Rightarrow> string" where
  "level_url filters search_type k =
     (let simple_keywords = extract_simple_keywords (keywords_raw (intent filters)) in
      if k = 1 then build_sales_nav_url filters search_type
      else if k = 2
      then build_sales_nav_url (simplified_filters filters simple_keywords) search_type
      else if k = 3
      then build_sales_nav_url (minimal_filters filters simple_keywords) search_type
      else if k = 4
      then build_sales_nav_url (broadening_filters (intent filters)) search_type
      else build_sales_nav_url (ultra_broad_filters (locations (intent filters))) search_type)"

definition level_count :: "int \<Rightarrow> nat \<Rightarrow> int" where
  "level_count max_results k =
     (if k = 4 then max_results * 2 else if k = 5 then max_results * 3 else max_results)"

definition level_tag :: "Intent \<Rightarrow> nat \<Rightarrow> result \<Rightarrow> result" where
  "level_tag i k =
     (if k = 4 then tag_or_broadening i else if k = 5 then tag_ultra_broad i else id)"

text \<open>
  A page that gives nothing: \<^verbatim>\<open>get\<close> raised an instance of \<^verbatim>\<open>Exception\<close>, or the
  extraction found no element.
\<close>

definition is_fail :: "py_exception + result list \<Rightarrow> bool" where
  "is_fail r =
     (case r of
        Inl (PyException m) \<Rightarrow> True
      | Inl (PyBaseException m) \<Rightarrow> False
      | Inr rs \<Rightarrow> rs = [])"


section \<open>Example inputs\<close>

definition clock0 :: clock where
  "clock0 = \<lparr> now_time = 1000, now_date = ''2024-01-01'', now_hour = 10 \<rparr>"

definition clock1 :: clock where
  "clock1 = \<lparr> now_time = 1001, now_date = ''2024-01-01'', now_hour = 10 \<rparr>"

definition clock_next_day :: clock where
  "clock_next_day = \<lparr> now_time = 90000, now_date = ''2024-01-02'', now_hour = 11 \<rparr>"

text \<open>A new limiter whose daily search limit has been set to \<open>N\<close>.\<close>

definition limiter_with_daily_limit :: "int \<Rightarrow> clock \<Rightarrow> RateLimiter" where
  "limiter_with_daily_limit N c =
     (new_limiter c)\<lparr> limits := default_limits\<lparr> searches_per_day := N \<rparr> \<rparr>"

text \<open>The intent and the filters of the query \<^verbatim>\<open>cto in valencia\<close>, and of \<^verbatim>\<open>cto\<close>.\<close>

definition valencia_intent :: Intent where
  "valencia_intent =
     \<lparr> roles = [''cto''], skills = [], locations = [''Valencia''], company_criteria = [],
       seniority = [''owner'', ''partner'', ''cxo'', ''vp'', ''director''],
       keywords_raw = ''cto in valencia'' \<rparr>"

definition valencia_filters :: SearchFilters where
  "valencia_filters =
     \<lparr> search_keywords = generate_optimized_keywords valencia_intent,
       native_filters = [(''geoIncluded'', ''Valencia''),
                         (''seniorityIncluded'', ''owner,partner,cxo,vp,director''),
                         (''currentJobTitle'', ''true'')],
       intent = valencia_intent \<rparr>"

definition nowhere_intent :: Intent where
  "nowhere_intent =
     \<lparr> roles = [''cto''], skills = [], locations = [], company_criteria = [],
       seniority = [''owner'', ''partner'', ''cxo'', ''vp'', ''director''],
       keywords_raw = ''cto'' \<rparr>"

definition nowhere_filters :: SearchFilters where
  "nowhere_filters =
     \<lparr> search_keywords = generate_optimized_keywords nowhere_intent,
       native_filters = [(''seniorityIncluded'', ''owner,partner,cxo,vp,director''),
                         (''currentJobTitle'', ''true'')],
       intent = nowhere_intent \<rparr>"

text \<open>An intent with three matched roles and no skill.\<close>

definition three_roles_intent :: Intent where
  "three_roles_intent =
     \<lparr> roles = [''cto'', ''ceo'', ''developer''], skills = [], locations = [],
       company_criteria = [],
       seniority = [''owner'', ''partner'', ''cxo'', ''vp'', ''director''],
       keywords_raw = ''cto or ceo or developer'' \<rparr>"

text \<open>A new limiter that has counted \<open>n\<close> consecutive failures.\<close>

definition limiter_with_failures :: "int \<Rightarrow> clock \<Rightarrow> RateLimiter" where
  "limiter_with_failures n c =
     (new_limiter c)\<lparr> state := (default_state c)\<lparr> consecutive_failures := n \<rparr> \<rparr>"



definition empty_page :: fetch_extract where
  "empty_page level url search_type count = Inr []"


definition only_at :: "nat \<Rightarrow> result list \<Rightarrow> fetch_extract" where
  "only_at k rs level url search_type count = (if level = k then Inr rs else Inr [])"

definition lead_row :: result where
  "lead_row = [(''name'', PStr ''Ada''), (''title'', PStr ''CTO''), (''company'', PStr ''N/A''),
               (''location'', PStr ''Valencia''), (''profile_url'', PStr ''''),
               (''source'', PStr ''LinkedIn Sales Navigator'')]"

definition fresh_process :: process where
  "fresh_process = \<lparr> rate_limiter = new_limiter clock0, driver_log = [] \<rparr>"

section \<open>Properties of the rate limiter\<close>

lemma reset_if_needed_blocked [simp]:
  "blocked_until (state (reset_if_needed c rl)) = blocked_until (state rl)"
  by (simp add: reset_if_needed_def Let_def)










lemma can_search_blocked:
  "now_time c < blocked_until (state (reset_if_needed c rl)) \<Longrightarrow>
   can_search c u rl =
     (Inr (False, ''Temporarily blocked for ''
                  @ fmt_0f (blocked_until (state (reset_if_needed c rl)) - now_time c)
                  @ '' seconds due to failures''), reset_if_needed c rl)"
  by (simp add: can_search_def Let_def)

lemma can_search_daily:
  "\<not> now_time c < blocked_until (state (reset_if_needed c rl)) \<Longrightarrow>
   searches_per_day (limits (reset_if_needed c rl))
     \<le> daily_searches (state (reset_if_needed c rl)) \<Longrightarrow>
   can_search c u rl =
     (Inr (False, ''Daily search limit reached (''
                  @ show_int (searches_per_day (limits (reset_if_needed c rl)))
                  @ '' searches)''),
      reset_if_needed c rl)"
  by (simp add: can_search_def Let_def)

lemma reset_same_date:
  "now_date c = last_reset_date (state rl) \<Longrightarrow>
   limits (reset_if_needed c rl) = limits rl
   \<and> daily_searches (state (reset_if_needed c rl)) = daily_searches (state rl)
   \<and> last_reset_date (state (reset_if_needed c rl)) = last_reset_date (state rl)"
  by (simp add: reset_if_needed_def Let_def)

lemma can_search_daily_refused:
  assumes "searches_per_day (limits rl) \<le> daily_searches (state rl)"
    and "now_date c = last_reset_date (state rl)"
  shows "\<exists>reason. fst (can_search c u rl) = Inr (False, reason)"
    and "blocked_until (state rl) \<le> now_time c \<Longrightarrow>
         fst (can_search c u rl)
           = Inr (False, ''Daily search limit reached (''
                         @ show_int (searches_per_day (limits rl)) @ '' searches)'')"
    and "limits (snd (can_search c u rl)) = limits rl"
    and "daily_searches (state (snd (can_search c u rl))) = daily_searches (state rl)"
    and "last_reset_date (state (snd (can_search c u rl))) = last_reset_date (state rl)"
proof -
  note r = reset_same_date [OF assms(2)]
  have d: "searches_per_day (limits (reset_if_needed c rl))
             \<le> daily_searches (state (reset_if_needed c rl))"
    using r assms(1) by simp
  consider (b) "now_time c < blocked_until (state (reset_if_needed c rl))"
    | (nb) "\<not> now_time c < blocked_until (state (reset_if_needed c rl))" by blast
  then have "(\<exists>reason. fst (can_search c u rl) = Inr (False, reason))
             \<and> snd (can_search c u rl) = reset_if_needed c rl"
  proof cases
    case b then show ?thesis by (simp add: can_search_blocked)
  next
    case nb then show ?thesis using d by (simp add: can_search_daily)
  qed
  then show "\<exists>reason. fst (can_search c u rl) = Inr (False, reason)"
    and "limits (snd (can_search c u rl)) = limits rl"
    and "daily_searches (state (snd (can_search c u rl))) = daily_searches (state rl)"
    and "last_reset_date (state (snd (can_search c u rl))) = last_reset_date (state rl)"
    using r by simp_all
  show "fst (can_search c u rl)
           = Inr (False, ''Daily search limit reached (''
                         @ show_int (searches_per_day (limits rl)) @ '' searches)'')"
    if "blocked_until (state rl) \<le> now_time c"
    using that d r by (simp add: can_search_daily)
qed

lemma after_calls_daily:
  assumes "searches_per_day (limits rl) \<le> daily_searches (state rl)"
    and "\<forall>cu \<in> set cs. now_date (fst cu) = last_reset_date (state rl)"
  shows "limits (after_calls cs rl) = limits rl
     \<and> daily_searches (state (after_calls cs rl)) = daily_searches (state rl)
     \<and> last_reset_date (state (after_calls cs rl)) = last_reset_date (state rl)"
  using assms
proof (induction cs arbitrary: rl)
  case Nil
  then show ?case by simp
next
  case (Cons a cs)
  obtain c u where a: "a = (c, u)" by (cases a)
  have d: "now_date c = last_reset_date (state rl)" using Cons.prems(2) a by simp
  note f = can_search_daily_refused(3,4,5) [OF Cons.prems(1) d, of u]
  have "limits (after_calls cs (snd (can_search c u rl))) = limits (snd (can_search c u rl))
     \<and> daily_searches (state (after_calls cs (snd (can_search c u rl))))
         = daily_searches (state (snd (can_search c u rl)))
     \<and> last_reset_date (state (after_calls cs (snd (can_search c u rl))))
         = last_reset_date (state (snd (can_search c u rl)))"
    apply (rule Cons.IH)
    using Cons.prems f by auto
  then show ?case using f a by simp
qed

lemma two_recorded_searches:
  "daily_searches (state (record_search c2 s2 (record_search c1 s1
      (limiter_with_daily_limit 2 c)))) = 2
   \<and> blocked_until (state (record_search c2 s2 (record_search c1 s1
      (limiter_with_daily_limit 2 c)))) = 0
   \<and> last_reset_date (state (record_search c2 s2 (record_search c1 s1
      (limiter_with_daily_limit 2 c)))) = now_date c
   \<and> searches_per_day (limits (record_search c2 s2 (record_search c1 s1
      (limiter_with_daily_limit 2 c)))) = 2"
  by (simp add: record_search_def limiter_with_daily_limit_def new_limiter_def
      default_state_def Let_def)

lemma show_int_2: "show_int 2 = ''2''"
  by (simp add: show_int_def show_nat.simps)

lemma case_sum_const: "(case x of Inl e \<Rightarrow> a | Inr b \<Rightarrow> a) = a"
  by (cases x) simp_all

lemma can_search_limiter:
  "snd (can_search c u rl) = reset_if_needed c rl
   \<or> snd (can_search c u rl)
       = (reset_if_needed c rl)\<lparr> state := (state (reset_if_needed c rl))\<lparr>
            continuous_searches := 0, last_break_time := now_time c \<rparr> \<rparr>"
proof -
  have "snd (can_search c u rl) =
    (if now_time c < blocked_until (state (reset_if_needed c rl)) then reset_if_needed c rl
     else if searches_per_day (limits (reset_if_needed c rl))
               \<le> daily_searches (state (reset_if_needed c rl)) then reset_if_needed c rl
     else if searches_per_hour (limits (reset_if_needed c rl))
               \<le> hourly_searches (state (reset_if_needed c rl)) then reset_if_needed c rl
     else if max_continuous_searches (limits (reset_if_needed c rl))
               \<le> continuous_searches (state (reset_if_needed c rl))
             \<and> now_time c - last_break_time (state (reset_if_needed c rl))
               < uniform u (break_duration_min (limits (reset_if_needed c rl)))
                   (break_duration_max (limits (reset_if_needed c rl)))
          then reset_if_needed c rl
     else if max_continuous_searches (limits (reset_if_needed c rl))
               \<le> continuous_searches (state (reset_if_needed c rl))
          then (reset_if_needed c rl)\<lparr> state := (state (reset_if_needed c rl))\<lparr>
                 continuous_searches := 0, last_break_time := now_time c \<rparr> \<rparr>
     else reset_if_needed c rl)"
    unfolding can_search_def Let_def
    by (simp only: if_distrib [of snd] sum.case_distrib [of snd] snd_conv if_cancel
        case_sum_const)
  then show ?thesis by (simp only: split: if_split) blast
qed



text \<open>The largest float lies between \<open>2 ^ 1023\<close> and \<open>2 ^ 1024\<close>.\<close>

lemma float_max_bounds:
  "(2::real) ^ 1023 \<le> float_max" "float_max < 2 ^ 1024"
proof -
  have "(1::real) * 2 ^ 1023 \<le> (2 - 1 / 2 ^ 52) * 2 ^ 1023"
    by (rule mult_right_mono) simp_all
  then show "(2::real) ^ 1023 \<le> float_max" by (simp only: float_max_def mult_1)
  have "(2 - 1 / 2 ^ 52) * (2::real) ^ 1023 < 2 * 2 ^ 1023"
    by (rule mult_strict_right_mono) simp_all
  moreover have "(2::real) * 2 ^ 1023 = 2 ^ 1024"
    by (simp only: power_Suc [symmetric]) simp
  ultimately show "float_max < 2 ^ 1024" by (simp only: float_max_def)
qed

lemma float_pow_two:
  "n \<le> 1023 \<Longrightarrow> float_pow 2 n = Inr (2 ^ n)"
  "1024 \<le> n \<Longrightarrow> float_pow 2 n = Inl (PyException ''OverflowError'')"
proof -
  assume n: "n \<le> 1023"
  have p: "(2::real) ^ n \<le> 2 ^ 1023" using n by (intro power_increasing) simp_all
  have a: "real n \<le> 2 ^ n" by (rule less_imp_le) (rule of_nat_less_two_power)
  have b: "(2::real) ^ n \<le> float_max" using p float_max_bounds(1) by (rule order_trans)
  have "real n \<le> float_max" using a b by (rule order_trans)
  then have n1: "\<not> float_max < real n" by (simp only: not_less)
  have "\<bar>(2::real) ^ n\<bar> = 2 ^ n" by simp
  then have "\<bar>(2::real) ^ n\<bar> \<le> float_max" using b by (simp only:)
  then have n2: "\<not> float_max < \<bar>(2::real) ^ n\<bar>" by (simp only: not_less)
  show "float_pow 2 n = Inr (2 ^ n)" by (simp only: float_pow_def n1 n2 if_False)
next
  assume n: "1024 \<le> n"
  have p: "(2::real) ^ 1024 \<le> 2 ^ n" using n by (intro power_increasing) simp_all
  have "float_max < (2::real) ^ n" using float_max_bounds(2) p by (rule less_le_trans)
  moreover have "\<bar>(2::real) ^ n\<bar> = 2 ^ n" by simp
  ultimately have h: "float_max < \<bar>(2::real) ^ n\<bar>" by (simp only:)
  show "float_pow 2 n = Inl (PyException ''OverflowError'')"
    by (simp only: float_pow_def h if_True if_cancel)
qed

lemma uniform_jitter:
  assumes "0 \<le> u" "u < 1" "0 \<le> a"
  shows "\<bar>uniform u (- a) a\<bar> \<le> a"
proof -
  have e: "uniform u (- a) a = a * (2 * u - 1)" by (simp add: uniform_def algebra_simps)
  have "\<bar>2 * u - 1\<bar> \<le> 1" using assms by (simp add: abs_le_iff)
  then have "a * \<bar>2 * u - 1\<bar> \<le> a * 1" using assms(3) by (rule mult_left_mono)
  then show ?thesis using assms(3) by (simp add: e abs_mult)
qed

lemma jittered_upper:
  fixes b j jr hi :: real
  assumes "0 \<le> b" "b \<le> hi" "0 \<le> jr" "\<bar>j\<bar> \<le> b * jr"
  shows "b + j \<le> hi * (1 + jr)"
proof -
  have "b + j \<le> b + b * jr" using assms(4) by simp
  also have "\<dots> = b * (1 + jr)" by (simp add: algebra_simps)
  also have "\<dots> \<le> hi * (1 + jr)" using assms by (intro mult_right_mono) simp_all
  finally show ?thesis .
qed

text \<open>
  Claim C5. A failed \<^verbatim>\<open>record_search\<close> adds one to \<open>consecutive_failures\<close> and to
  \<open>total_failures_today\<close>; when the new count is at least 3, \<open>blocked_until\<close> is set
  (not added to) to the time of the call plus \<open>300 * 2 ^ (consecutive_failures - 3)\<close>
  seconds, at most 3600, and below 3 it is left as it was. A successful
  \<^verbatim>\<open>record_search\<close> sets \<open>consecutive_failures\<close> to zero. From a state without
  failures, three failures give the time of the third plus \<open>300 * 2 ^ 0\<close>, and a fourth
  gives its own time plus \<open>300 * 2 ^ 1\<close>.
\<close>

theorem record_search_backoff:
  "consecutive_failures (state (record_search c False rl))
     = consecutive_failures (state rl) + 1
   \<and> total_failures_today (state (record_search c False rl))
     = total_failures_today (state rl) + 1
   \<and> (3 \<le> consecutive_failures (state (record_search c False rl)) \<longrightarrow>
        blocked_until (state (record_search c False rl))
          = now_time c
            + of_int (min (300 * 2 ^ nat (consecutive_failures
                                            (state (record_search c False rl)) - 3)) 3600))
   \<and> (consecutive_failures (state (record_search c False rl)) < 3 \<longrightarrow>
        blocked_until (state (record_search c False rl)) = blocked_until (state rl))
   \<and> consecutive_failures (state (record_search c True rl)) = 0
   \<and> (consecutive_failures (state rl) = 0 \<longrightarrow>
        consecutive_failures (state (record_search c3 False (record_search c2 False
           (record_search c1 False rl)))) = 3
        \<and> blocked_until (state (record_search c3 False (record_search c2 False
           (record_search c1 False rl)))) = now_time c3 + 300 * 2 ^ 0
        \<and> blocked_until (state (record_search c4 False (record_search c3 False
           (record_search c2 False (record_search c1 False rl))))) = now_time c4 + 300 * 2 ^ 1)"
  by (simp add: record_search_def Let_def)

theorem record_search_backoff_witness:
  "consecutive_failures (state (new_limiter clock0)) = 0
   \<and> consecutive_failures (state (record_search clock1 False (record_search clock0 False
        (record_search clock0 False (new_limiter clock0))))) = 3
   \<and> blocked_until (state (record_search clock1 False (record_search clock0 False
        (record_search clock0 False (new_limiter clock0))))) = 1301
   \<and> blocked_until (state (record_search clock_next_day False (record_search clock1 False
        (record_search clock0 False (record_search clock0 False (new_limiter clock0))))))
      = 90600"
proof -
  have h: "consecutive_failures (state (new_limiter clock0)) = 0"
    by (simp add: new_limiter_def default_state_def)
  have t: "now_time clock1 = 1001" "now_time clock_next_day = 90000"
    by (simp_all add: clock1_def clock_next_day_def)
  from record_search_backoff [of clock0 "new_limiter clock0" clock1 clock0 clock0
      clock_next_day] h t
  show ?thesis by simp
qed







text \<open>
  Claim C10. \<^verbatim>\<open>can_view_profile\<close> answers \<open>(True, OK)\<close> whenever the daily and hourly
  profile counters, as they stand after the rollover with which the function starts, are
  below their limits and at least \<open>min_delay_between_profiles\<close> seconds have passed since
  \<open>last_profile_time\<close>; for counters that are not negative this is the case as soon as
  they are below their limits before the call. The answer does not depend on
  \<open>blocked_until\<close>, on the continuous-search count or on the consecutive failures: it is
  the same whatever these three fields hold, a block that lies in the future included.
\<close>

theorem can_view_profile_ignores_block:
  "(daily_profiles (state (reset_if_needed c rl)) < profiles_per_day (limits rl)
     \<and> hourly_profiles (state (reset_if_needed c rl)) < profiles_per_hour (limits rl)
     \<and> min_delay_between_profiles (limits rl) \<le> now_time c - last_profile_time (state rl)
    \<longrightarrow> fst (can_view_profile c rl) = (True, ''OK''))
   \<and> (0 \<le> daily_profiles (state rl) \<and> daily_profiles (state rl) < profiles_per_day (limits rl)
     \<and> 0 \<le> hourly_profiles (state rl)
     \<and> hourly_profiles (state rl) < profiles_per_hour (limits rl)
     \<and> min_delay_between_profiles (limits rl) \<le> now_time c - last_profile_time (state rl)
     \<and> now_time c < blocked_until (state rl)
    \<longrightarrow> fst (can_view_profile c rl) = (True, ''OK''))
   \<and> fst (can_view_profile c (rl\<lparr> state := (state rl)\<lparr> blocked_until := b,
            continuous_searches := k, consecutive_failures := f \<rparr> \<rparr>))
      = fst (can_view_profile c rl)"
  by (simp add: can_view_profile_def reset_if_needed_def Let_def)

theorem can_view_profile_ignores_block_witness:
  "now_time clock1 < blocked_until (state (emergency_stop clock0 (new_limiter clock0)))
   \<and> fst (can_view_profile clock1 (emergency_stop clock0 (new_limiter clock0))) = (True, ''OK'')"
proof -
  let ?rl = "emergency_stop clock0 (new_limiter clock0)"
  have h: "0 \<le> daily_profiles (state ?rl)"
    "daily_profiles (state ?rl) < profiles_per_day (limits ?rl)"
    "0 \<le> hourly_profiles (state ?rl)"
    "hourly_profiles (state ?rl) < profiles_per_hour (limits ?rl)"
    "min_delay_between_profiles (limits ?rl) \<le> now_time clock1 - last_profile_time (state ?rl)"
    "now_time clock1 < blocked_until (state ?rl)"
    by (simp_all add: emergency_stop_def new_limiter_def default_state_def default_limits_def
        clock0_def clock1_def)
  from can_view_profile_ignores_block [of clock1 ?rl] h
  show ?thesis by blast
qed

lemma can_search_keeps_block:
  "blocked_until (state (snd (can_search c u rl))) = blocked_until (state rl)"
  using can_search_limiter [of c u rl] by auto

lemma after_calls_keeps_block:
  "blocked_until (state (after_calls cs rl)) = blocked_until (state rl)"
proof (induction cs arbitrary: rl)
  case Nil
  show ?case by simp
next
  case (Cons a cs)
  obtain c u where a: "a = (c, u)" by (cases a)
  show ?case using Cons.IH [of "snd (can_search c u rl)"] a
    by (simp add: can_search_keeps_block)
qed

text \<open>
  Claim C6, as stated, fails: with the daily limit at 3, after three failed searches
  recorded at time 1000 the counter has reached the limit, and \<^verbatim>\<open>can_search\<close> at time
  1001 refuses with the reason of the temporary block, not with that of the daily limit.
\<close>

theorem daily_limit_reason_counterexample:
  "searches_per_day (limits (record_search clock0 False (record_search clock0 False
      (record_search clock0 False (limiter_with_daily_limit 3 clock0))))) = 3
   \<and> daily_searches (state (record_search clock0 False (record_search clock0 False
      (record_search clock0 False (limiter_with_daily_limit 3 clock0))))) = 3
   \<and> now_date clock1 = last_reset_date (state (record_search clock0 False
      (record_search clock0 False (record_search clock0 False
        (limiter_with_daily_limit 3 clock0)))))
   \<and> fst (can_search clock1 0 (record_search clock0 False (record_search clock0 False
      (record_search clock0 False (limiter_with_daily_limit 3 clock0)))))
     = Inr (False, ''Temporarily blocked for '' @ fmt_0f 299 @ '' seconds due to failures'')
   \<and> fst (can_search clock1 0 (record_search clock0 False (record_search clock0 False
      (record_search clock0 False (limiter_with_daily_limit 3 clock0)))))
     \<noteq> Inr (False, ''Daily search limit reached (3 searches)'')"
proof -
  let ?rl = "record_search clock0 False (record_search clock0 False
      (record_search clock0 False (limiter_with_daily_limit 3 clock0)))"
  have v: "searches_per_day (limits ?rl) = 3" "daily_searches (state ?rl) = 3"
    "now_date clock1 = last_reset_date (state ?rl)" "blocked_until (state ?rl) = 1300"
    "now_time clock1 = 1001"
    by (simp_all add: record_search_def limiter_with_daily_limit_def new_limiter_def
        default_state_def clock0_def clock1_def Let_def)
  have b: "now_time clock1 < blocked_until (state (reset_if_needed clock1 ?rl))"
    using v by simp
  have r: "fst (can_search clock1 0 ?rl)
     = Inr (False, ''Temporarily blocked for '' @ fmt_0f 299 @ '' seconds due to failures'')"
    using v by (simp add: can_search_blocked [OF b])
  then have "fst (can_search clock1 0 ?rl)
     \<noteq> Inr (False, ''Daily search limit reached (3 searches)'')"
    by simp
  with v r show ?thesis by simp
qed

text \<open>
  Claim C6, amended. With the daily search limit configured to \<open>N\<close>, once
  \<open>daily_searches\<close> has reached \<open>N\<close>, \<^verbatim>\<open>can_search\<close> returns false on every call
  made while the stored \<open>last_reset_date\<close> equals the current date, however many such
  calls came before; the reason is exactly \<^verbatim>\<open>Daily search limit reached (N searches)\<close>
  whenever no temporary block is in force, that is \<open>blocked_until\<close> does not lie in the
  future (while a block is in force the call is refused with the reason of the block).
  For \<open>N = 2\<close> this is the case after exactly two recorded searches on a new limiter.
\<close>

theorem daily_limit_refusal:
  "(searches_per_day (limits rl) \<le> daily_searches (state rl)
     \<and> (\<forall>cu \<in> set cs. now_date (fst cu) = last_reset_date (state rl))
     \<and> now_date c = last_reset_date (state rl)
    \<longrightarrow> (\<exists>reason. fst (can_search c u (after_calls cs rl)) = Inr (False, reason))
       \<and> (blocked_until (state rl) \<le> now_time c \<longrightarrow>
            fst (can_search c u (after_calls cs rl))
              = Inr (False, ''Daily search limit reached (''
                            @ show_int (searches_per_day (limits rl)) @ '' searches)'')))
   \<and> (0 \<le> now_time c' \<and> now_date c' = now_date cstart
        \<and> (\<forall>cu \<in> set cs'. now_date (fst cu) = now_date cstart)
    \<longrightarrow> fst (can_search c' u (after_calls cs' (record_search cb sb (record_search ca sa
             (limiter_with_daily_limit 2 cstart)))))
          = Inr (False, ''Daily search limit reached (2 searches)''))"
proof -
  have general: "(\<exists>reason. fst (can_search c u (after_calls cs rl)) = Inr (False, reason))
       \<and> (blocked_until (state rl) \<le> now_time c \<longrightarrow>
            fst (can_search c u (after_calls cs rl))
              = Inr (False, ''Daily search limit reached (''
                            @ show_int (searches_per_day (limits rl)) @ '' searches)''))"
    if a: "searches_per_day (limits rl) \<le> daily_searches (state rl)"
      and b: "\<forall>cu \<in> set cs. now_date (fst cu) = last_reset_date (state rl)"
      and d: "now_date c = last_reset_date (state rl)"
    for rl :: RateLimiter and cs c
  proof -
    note k = after_calls_daily [OF a b]
    have a': "searches_per_day (limits (after_calls cs rl))
                \<le> daily_searches (state (after_calls cs rl))"
      using k a by simp
    have d': "now_date c = last_reset_date (state (after_calls cs rl))"
      using k d by simp
    note r = can_search_daily_refused(1,2) [OF a' d', of u]
    show ?thesis using r k by (simp add: after_calls_keeps_block)
  qed
  let ?rl = "record_search cb sb (record_search ca sa (limiter_with_daily_limit 2 cstart))"
  note t = two_recorded_searches [of cb sb ca sa cstart]
  have scenario: "fst (can_search c' u (after_calls cs' ?rl))
          = Inr (False, ''Daily search limit reached (2 searches)'')"
    if "0 \<le> now_time c'" "now_date c' = now_date cstart"
      "\<forall>cu \<in> set cs'. now_date (fst cu) = now_date cstart"
  proof -
    have "(\<exists>reason. fst (can_search c' u (after_calls cs' ?rl)) = Inr (False, reason))
       \<and> (blocked_until (state ?rl) \<le> now_time c' \<longrightarrow>
            fst (can_search c' u (after_calls cs' ?rl))
              = Inr (False, ''Daily search limit reached (''
                            @ show_int (searches_per_day (limits ?rl)) @ '' searches)''))"
      by (rule general) (use t that in simp_all)
    then show ?thesis using t that by (simp add: show_int_2)
  qed
  show ?thesis using general scenario by blast
qed

theorem daily_limit_refusal_witness:
  "(0::real) \<le> now_time clock1 \<and> now_date clock1 = now_date clock0
   \<and> fst (can_search clock1 0 (after_calls [(clock0, 0), (clock1, 1 / 2)]
        (record_search clock0 True (record_search clock0 True
          (limiter_with_daily_limit 2 clock0)))))
     = Inr (False, ''Daily search limit reached (2 searches)'')"
proof -
  have h: "(0::real) \<le> now_time clock1" "now_date clock1 = now_date clock0"
    "\<forall>cu \<in> set [(clock0, 0::real), (clock1, 1 / 2)]. now_date (fst cu) = now_date clock0"
    by (simp_all add: clock0_def clock1_def)
  from daily_limit_refusal [where c' = clock1 and cstart = clock0
      and cs' = "[(clock0, 0), (clock1, 1 / 2)]" and u = 0
      and ca = clock0 and sa = True and cb = clock0 and sb = True] h
  show ?thesis by blast
qed

text \<open>
  Claim C4, as stated, fails. Without failures, with the draws \<open>z = 3\<close> and
  \<open>u = 3/4\<close>, the delay for a search is 198 seconds, above \<open>max_delay = 180\<close>. And
  with 1024 consecutive failures no delay is returned: the power \<open>2.0 ** 1024\<close> raises
  \<^verbatim>\<open>OverflowError\<close>.
\<close>

theorem get_delay_above_max_counterexample:
  "consecutive_failures (state (new_limiter clock0)) = 0
   \<and> delay_range ''search'' (limits (new_limiter clock0)) = (45, 180)
   \<and> get_delay 3 (3 / 4) ''search'' (new_limiter clock0) = Inr 198
   \<and> consecutive_failures (state (limiter_with_failures 1024 clock0)) = 1024
   \<and> get_delay 3 (3 / 4) ''search'' (limiter_with_failures 1024 clock0)
       = Inl (PyException ''OverflowError'')"
proof -
  have 1: "consecutive_failures (state (new_limiter clock0)) = 0
   \<and> delay_range ''search'' (limits (new_limiter clock0)) = (45, 180)
   \<and> get_delay 3 (3 / 4) ''search'' (new_limiter clock0) = Inr 198"
    by (simp add: get_delay_def new_limiter_def default_state_def default_limits_def
        delay_range_def gauss_def uniform_def Let_def)
  have c: "consecutive_failures (state (limiter_with_failures 1024 clock0)) = 1024"
    "backoff_multiplier (limits (limiter_with_failures 1024 clock0)) = 2"
    by (simp_all add: limiter_with_failures_def new_limiter_def default_limits_def)
  have p: "float_pow 2 (nat 1024) = Inl (PyException ''OverflowError'')"
    by (rule float_pow_two(2)) simp
  have 2: "get_delay 3 (3 / 4) ''search'' (limiter_with_failures 1024 clock0)
       = Inl (PyException ''OverflowError'')"
    unfolding get_delay_def Let_def c using p by simp
  show ?thesis using 1 c(1) 2 by simp
qed

text \<open>
  Claim C4, amended. Let \<open>min_delay\<close> and \<open>max_delay\<close> be the bounds of the chosen
  action type, with \<open>0 \<le> min_delay \<le> max_delay\<close> and a jitter range that is not
  negative, let the uniform draw lie in \<open>[0, 1)\<close>, and let the state be one in which
  the power \<open>backoff_multiplier ** consecutive_failures\<close> does not overflow a float
  (with the multiplier 2.0: at most 1023 consecutive failures). Then \<^verbatim>\<open>get_delay\<close>
  returns \<open>max min_delay (d + j)\<close> where the base delay \<open>b\<close> lies within
  \<open>[min_delay, max_delay]\<close>, the jitter \<open>j\<close> is at most \<open>b * jitter_range\<close> in absolute
  value, and \<open>d\<close> is \<open>b\<close> when \<open>consecutive_failures = 0\<close> and otherwise
  \<open>b * backoff_multiplier ^ consecutive_failures\<close> capped at \<open>max_backoff\<close>. So the
  result is never below \<open>min_delay\<close>, and with \<open>consecutive_failures = 0\<close> it lies
  within \<open>[min_delay, max_delay * (1 + jitter_range)]\<close>.
\<close>

theorem get_delay_range:
  assumes u: "0 \<le> u" "u < 1"
    and jr: "0 \<le> jitter_range (limits rl)"
    and lo: "0 \<le> fst (delay_range a (limits rl))"
    and hi: "fst (delay_range a (limits rl)) \<le> snd (delay_range a (limits rl))"
    and nf: "(0 < consecutive_failures (state rl)
               \<and> float_pow (backoff_multiplier (limits rl)) (nat (consecutive_failures (state rl)))
                   = Inr (backoff_multiplier (limits rl) ^ nat (consecutive_failures (state rl))))
             \<or> consecutive_failures (state rl) \<le> 0
             \<or> (backoff_multiplier (limits rl) = 2 \<and> consecutive_failures (state rl) \<le> 1023)"
  shows "\<exists>d. get_delay z u a rl = Inr d
    \<and> fst (delay_range a (limits rl)) \<le> d
    \<and> (consecutive_failures (state rl) = 0 \<longrightarrow>
          d \<le> snd (delay_range a (limits rl)) * (1 + jitter_range (limits rl)))
    \<and> (\<exists>b j. fst (delay_range a (limits rl)) \<le> b \<and> b \<le> snd (delay_range a (limits rl))
          \<and> \<bar>j\<bar> \<le> b * jitter_range (limits rl)
          \<and> d = max (fst (delay_range a (limits rl)))
                  ((if 0 < consecutive_failures (state rl)
                    then min (b * backoff_multiplier (limits rl)
                                  ^ nat (consecutive_failures (state rl)))
                             (max_backoff (limits rl))
                    else b) + j))"
proof -
  define mn where "mn = fst (delay_range a (limits rl))"
  define mx where "mx = snd (delay_range a (limits rl))"
  define b where "b = max mn (min mx (gauss z ((mn + mx) / 2) ((mx - mn) / 6)))"
  define j where "j = uniform u (- (b * jitter_range (limits rl))) (b * jitter_range (limits rl))"
  define d where "d = max mn ((if 0 < consecutive_failures (state rl)
                    then min (b * backoff_multiplier (limits rl)
                                  ^ nat (consecutive_failures (state rl)))
                             (max_backoff (limits rl))
                    else b) + j)"
  have b1: "mn \<le> b" and b2: "b \<le> mx" using hi by (simp_all add: b_def mn_def mx_def)
  have b0: "0 \<le> b" using lo b1 by (simp add: mn_def)
  have jb: "\<bar>j\<bar> \<le> b * jitter_range (limits rl)"
    unfolding j_def using u by (rule uniform_jitter) (simp add: b0 jr)
  have pw: "float_pow (backoff_multiplier (limits rl)) (nat (consecutive_failures (state rl)))
              = Inr (backoff_multiplier (limits rl) ^ nat (consecutive_failures (state rl)))"
    if "0 < consecutive_failures (state rl)"
  proof -
    from nf that consider
        "float_pow (backoff_multiplier (limits rl)) (nat (consecutive_failures (state rl)))
           = Inr (backoff_multiplier (limits rl) ^ nat (consecutive_failures (state rl)))"
      | "backoff_multiplier (limits rl) = 2" "consecutive_failures (state rl) \<le> 1023"
      by auto
    then show ?thesis
    proof cases
      case 1
      then show ?thesis .
    next
      case 2
      have "nat (consecutive_failures (state rl)) \<le> 1023" using 2(2) by simp
      from float_pow_two(1) [OF this] show ?thesis using 2(1) by simp
    qed
  qed
  have eq: "get_delay z u a rl = Inr d"
  proof (cases "0 < consecutive_failures (state rl)")
    case True
    show ?thesis unfolding get_delay_def Let_def using True pw [OF True]
      by (simp add: d_def mn_def mx_def b_def j_def)
  next
    case False
    then show ?thesis unfolding get_delay_def Let_def
      by (simp add: d_def mn_def mx_def b_def j_def)
  qed
  have low: "mn \<le> d" by (simp add: d_def)
  have up: "d \<le> mx * (1 + jitter_range (limits rl))"
    if "consecutive_failures (state rl) = 0"
  proof -
    have "b + j \<le> mx * (1 + jitter_range (limits rl))"
      using b0 b2 jr jb by (rule jittered_upper)
    moreover have "mn \<le> mx * (1 + jitter_range (limits rl))"
    proof -
      have "0 \<le> mx * jitter_range (limits rl)" using b0 b2 jr by simp
      then show ?thesis using b1 b2 by (simp add: algebra_simps)
    qed
    ultimately show ?thesis using that by (simp add: d_def)
  qed
  show ?thesis
    using eq low up b1 b2 jb d_def unfolding mn_def mx_def by blast
qed

theorem get_delay_range_witness:
  "(0::real) \<le> 3 / 4 \<and> (3 / 4 :: real) < 1
   \<and> consecutive_failures (state (limiter_with_failures 2 clock0)) = 2
   \<and> (\<exists>d. get_delay 3 (3 / 4) ''search'' (limiter_with_failures 2 clock0) = Inr d \<and> 45 \<le> d)
   \<and> consecutive_failures (state (new_limiter clock0)) = 0
   \<and> (\<exists>d. get_delay 3 (3 / 4) ''search'' (new_limiter clock0) = Inr d \<and> 45 \<le> d \<and> d \<le> 216)"
proof -
  have h: "(0::real) \<le> 3 / 4" "(3 / 4 :: real) < 1"
    "0 \<le> jitter_range (limits (new_limiter clock0))"
    "0 \<le> fst (delay_range ''search'' (limits (new_limiter clock0)))"
    "fst (delay_range ''search'' (limits (new_limiter clock0)))
       \<le> snd (delay_range ''search'' (limits (new_limiter clock0)))"
    by (simp_all add: new_limiter_def default_limits_def delay_range_def)
  have h0: "(0 < consecutive_failures (state (new_limiter clock0))
               \<and> float_pow (backoff_multiplier (limits (new_limiter clock0)))
                     (nat (consecutive_failures (state (new_limiter clock0))))
                   = Inr (backoff_multiplier (limits (new_limiter clock0))
                          ^ nat (consecutive_failures (state (new_limiter clock0)))))
             \<or> consecutive_failures (state (new_limiter clock0)) \<le> 0
             \<or> (backoff_multiplier (limits (new_limiter clock0)) = 2
                 \<and> consecutive_failures (state (new_limiter clock0)) \<le> 1023)"
    by (simp add: new_limiter_def default_state_def)
  have v: "consecutive_failures (state (new_limiter clock0)) = 0"
    "fst (delay_range ''search'' (limits (new_limiter clock0))) = 45"
    "snd (delay_range ''search'' (limits (new_limiter clock0)))
       * (1 + jitter_range (limits (new_limiter clock0))) = 216"
    by (simp_all add: new_limiter_def default_state_def default_limits_def delay_range_def)
  have g: "(0::real) \<le> 3 / 4" "(3 / 4 :: real) < 1"
    "0 \<le> jitter_range (limits (limiter_with_failures 2 clock0))"
    "0 \<le> fst (delay_range ''search'' (limits (limiter_with_failures 2 clock0)))"
    "fst (delay_range ''search'' (limits (limiter_with_failures 2 clock0)))
       \<le> snd (delay_range ''search'' (limits (limiter_with_failures 2 clock0)))"
    by (simp_all add: limiter_with_failures_def new_limiter_def default_limits_def
        delay_range_def)
  have g0: "(0 < consecutive_failures (state (limiter_with_failures 2 clock0))
               \<and> float_pow (backoff_multiplier (limits (limiter_with_failures 2 clock0)))
                     (nat (consecutive_failures (state (limiter_with_failures 2 clock0))))
                   = Inr (backoff_multiplier (limits (limiter_with_failures 2 clock0))
                          ^ nat (consecutive_failures (state (limiter_with_failures 2 clock0)))))
             \<or> consecutive_failures (state (limiter_with_failures 2 clock0)) \<le> 0
             \<or> (backoff_multiplier (limits (limiter_with_failures 2 clock0)) = 2
                 \<and> consecutive_failures (state (limiter_with_failures 2 clock0)) \<le> 1023)"
    by (simp add: limiter_with_failures_def new_limiter_def default_limits_def)
  have w: "consecutive_failures (state (limiter_with_failures 2 clock0)) = 2"
    "fst (delay_range ''search'' (limits (limiter_with_failures 2 clock0))) = 45"
    by (simp_all add: limiter_with_failures_def new_limiter_def default_limits_def
        delay_range_def)
  from get_delay_range [OF h h0, of 3] v
  have a: "\<exists>d. get_delay 3 (3 / 4) ''search'' (new_limiter clock0) = Inr d
      \<and> 45 \<le> d \<and> d \<le> 216"
    by auto
  from get_delay_range [OF g g0, of 3] w
  have b: "\<exists>d. get_delay 3 (3 / 4) ''search'' (limiter_with_failures 2 clock0) = Inr d
      \<and> 45 \<le> d"
    by auto
  show ?thesis using h(1,2) v(1) w(1) a b by simp
qed

section \<open>Properties of the progressive search\<close>

lemma levels_attempted_append:
  "levels_attempted (xs @ ys) = levels_attempted xs @ levels_attempted ys"
  by (induction xs rule: levels_attempted.induct) simp_all

lemma fst_pause [simp]: "fst (pause n rest) = fst rest"
  by (simp add: pause_def)

lemma levels_pause [simp]: "levels_attempted (snd (pause n rest)) = levels_attempted (snd rest)"
  by (simp add: pause_def)

lemma or_else_None:
  "fst step = Inr None \<Longrightarrow> or_else step rest = (fst rest, snd step @ snd rest)"
  by (simp add: or_else_def)

lemma or_else_Some:
  "fst step = Inr (Some rs) \<Longrightarrow> or_else step rest = (Inr rs, snd step)"
  by (simp add: or_else_def)

lemma except_Exception_Inr:
  "\<forall>m. fst body \<noteq> Inl (PyBaseException m) \<Longrightarrow> \<exists>r. fst (except_Exception body) = Inr r"
  by (auto simp add: except_Exception_def split: sum.splits py_exception.splits)


text \<open>One \<^verbatim>\<open>try\<close> block whose page is empty or fails, and one whose page has results.\<close>

lemma run_search_fail:
  assumes "is_fail (page l (build_sales_nav_url fs ty) ty c)"
  shows "fst (except_Exception (run_search page l fs ty w c tag)) = Inr None"
    and "levels_attempted (snd (except_Exception (run_search page l fs ty w c tag))) = [l]"
  using assms
  by (auto simp add: run_search_def except_Exception_def is_fail_def Let_def
      split: sum.splits py_exception.splits)



lemma run_search_success:
  assumes "page l (build_sales_nav_url fs ty) ty c = Inr rs" and "rs \<noteq> []"
  shows "fst (except_Exception (run_search page l fs ty w c tag)) = Inr (Some (map tag rs))"
    and "levels_attempted (snd (except_Exception (run_search page l fs ty w c tag))) = [l]"
  using assms
  by (auto simp add: run_search_def except_Exception_def Let_def)

lemma skipped_step:
  "fst (except_Exception (Inr None, [])) = Inr None"
  "levels_attempted (snd (except_Exception (Inr None, []))) = []"
  by (simp_all add: except_Exception_def)

text \<open>A step that does not return, in front of the rest of the ladder.\<close>

lemma or_else_fail_fst:
  "fst step = Inr None \<Longrightarrow> fst (or_else step rest) = fst rest"
  by (simp add: or_else_None)

lemma or_else_fail_levels:
  "fst step = Inr None \<Longrightarrow>
   levels_attempted (snd (or_else step rest))
     = levels_attempted (snd step) @ levels_attempted (snd rest)"
  by (simp add: or_else_None levels_attempted_append)

lemma or_else_success_fst:
  "fst step = Inr (Some rs) \<Longrightarrow> fst (or_else step rest) = Inr rs"
  by (simp add: or_else_Some)

lemma or_else_success_levels:
  "fst step = Inr (Some rs) \<Longrightarrow>
   levels_attempted (snd (or_else step rest)) = levels_attempted (snd step)"
  by (simp add: or_else_Some)

lemma strategy_fail:
  "\<forall>u t m. is_fail (page 1 u t m) \<Longrightarrow>
     fst (except_Exception (strategy1 page f ty n)) = Inr None
     \<and> levels_attempted (snd (except_Exception (strategy1 page f ty n))) = [1]"
  "\<forall>u t m. is_fail (page 2 u t m) \<Longrightarrow>
     fst (except_Exception (strategy2 page f sk ty n)) = Inr None
     \<and> levels_attempted (snd (except_Exception (strategy2 page f sk ty n)))
         = (if sk \<noteq> [] then [2] else [])"
  "\<forall>u t m. is_fail (page 3 u t m) \<Longrightarrow>
     fst (except_Exception (strategy3 page f sk ty n)) = Inr None
     \<and> levels_attempted (snd (except_Exception (strategy3 page f sk ty n))) = [3]"
  "\<forall>u t m. is_fail (page 4 u t m) \<Longrightarrow>
     fst (except_Exception (strategy4 page i ty n)) = Inr None
     \<and> levels_attempted (snd (except_Exception (strategy4 page i ty n))) = [4]"
  "\<forall>u t m. is_fail (page 5 u t m) \<Longrightarrow>
     fst (except_Exception (strategy5 page i ty n)) = Inr None
     \<and> levels_attempted (snd (except_Exception (strategy5 page i ty n)))
         = (if locations i \<noteq> [] then [5] else [])"
  by (simp_all add: strategy1_def strategy2_def strategy3_def strategy4_def strategy5_def
      run_search_fail skipped_step)

lemma strategy_success:
  assumes "page l (level_url f ty l) ty (level_count n l) = Inr rs" and "rs \<noteq> []"
    and "\<not> level_skipped f l"
  shows "l = 1 \<Longrightarrow>
        fst (except_Exception (strategy1 page f ty n))
          = Inr (Some (map (level_tag (intent f) l) rs))
      \<and> levels_attempted (snd (except_Exception (strategy1 page f ty n))) = [1]"
   and "l = 2 \<Longrightarrow>
        fst (except_Exception (strategy2 page f
               (extract_simple_keywords (keywords_raw (intent f))) ty n))
          = Inr (Some (map (level_tag (intent f) l) rs))
      \<and> levels_attempted (snd (except_Exception (strategy2 page f
               (extract_simple_keywords (keywords_raw (intent f))) ty n))) = [2]"
   and "l = 3 \<Longrightarrow>
        fst (except_Exception (strategy3 page f
               (extract_simple_keywords (keywords_raw (intent f))) ty n))
          = Inr (Some (map (level_tag (intent f) l) rs))
      \<and> levels_attempted (snd (except_Exception (strategy3 page f
               (extract_simple_keywords (keywords_raw (intent f))) ty n))) = [3]"
   and "l = 4 \<Longrightarrow>
        fst (except_Exception (strategy4 page (intent f) ty n))
          = Inr (Some (map (level_tag (intent f) l) rs))
      \<and> levels_attempted (snd (except_Exception (strategy4 page (intent f) ty n))) = [4]"
   and "l = 5 \<Longrightarrow>
        fst (except_Exception (strategy5 page (intent f) ty n))
          = Inr (Some (map (level_tag (intent f) l) rs))
      \<and> levels_attempted (snd (except_Exception (strategy5 page (intent f) ty n))) = [5]"
  using assms
  by (simp_all add: strategy1_def strategy2_def strategy3_def strategy4_def strategy5_def
      run_search_success level_url_def level_count_def level_tag_def level_skipped_def Let_def)

lemma ladder_all_fail:
  assumes "\<forall>l u t m. is_fail (page l u t m)"
  shows "fst (ladder page f ty n) = Inr []"
    and "levels_attempted (snd (ladder page f ty n))
           = filter (\<lambda>l. \<not> level_skipped f l) [1, 2, 3, 4, 5]"
proof -
  have a: "\<forall>u t m. is_fail (page l u t m)" for l using assms by simp
  note s = strategy_fail(1) [where page = page, OF a] strategy_fail(2) [where page = page, OF a]
    strategy_fail(3) [where page = page, OF a] strategy_fail(4) [where page = page, OF a]
    strategy_fail(5) [where page = page, OF a]
  show "fst (ladder page f ty n) = Inr []"
    unfolding ladder_def Let_def by (simp add: or_else_fail_fst s)
  show "levels_attempted (snd (ladder page f ty n))
           = filter (\<lambda>l. \<not> level_skipped f l) [1, 2, 3, 4, 5]"
    unfolding ladder_def Let_def by (simp add: or_else_fail_levels s level_skipped_def)
qed

lemma ladder_first_success:
  assumes k: "1 \<le> k" "k \<le> 5"
    and before: "\<forall>l<k. \<forall>u t m. page l u t m = Inr []"
    and at: "page k (level_url f ty k) ty (level_count n k) = Inr rs" "rs \<noteq> []"
    and ns: "\<not> level_skipped f k"
  shows "fst (ladder page f ty n) = Inr (map (level_tag (intent f) k) rs)"
    and "levels_attempted (snd (ladder page f ty n))
           = filter (\<lambda>l. l \<le> k \<and> \<not> level_skipped f l) [1, 2, 3, 4, 5]"
proof -
  have a: "\<forall>u t m. is_fail (page l u t m)" if "l < k" for l
    using before that by (simp add: is_fail_def)
  note ok = strategy_success [where page = page and l = k and f = f and ty = ty and n = n
      and rs = rs, OF at ns]
  from k have "k = 1 \<or> k = 2 \<or> k = 3 \<or> k = 4 \<or> k = 5" by arith
  then have "fst (ladder page f ty n) = Inr (map (level_tag (intent f) k) rs)
     \<and> levels_attempted (snd (ladder page f ty n))
           = filter (\<lambda>l. l \<le> k \<and> \<not> level_skipped f l) [1, 2, 3, 4, 5]"
  proof (elim disjE)
    assume e: "k = 1"
    show ?thesis unfolding ladder_def Let_def using ok(1) [OF e] ns e
      by (simp add: or_else_success_fst or_else_success_levels)
  next
    assume e: "k = 2"
    have l1: "(1::nat) < k" using e by simp
    note s = strategy_fail(1) [where page = page, OF a [OF l1]]
    show ?thesis unfolding ladder_def Let_def using ok(2) [OF e] ns e
      by (simp add: or_else_success_fst or_else_success_levels or_else_fail_fst
          or_else_fail_levels s level_skipped_def)
  next
    assume e: "k = 3"
    have l1: "(1::nat) < k" and l2: "(2::nat) < k" using e by simp_all
    note s = strategy_fail(1) [where page = page, OF a [OF l1]] strategy_fail(2) [where page = page, OF a [OF l2]]
    show ?thesis unfolding ladder_def Let_def using ok(3) [OF e] ns e
      by (simp add: or_else_success_fst or_else_success_levels or_else_fail_fst
          or_else_fail_levels s level_skipped_def)
  next
    assume e: "k = 4"
    have l1: "(1::nat) < k" and l2: "(2::nat) < k" and l3: "(3::nat) < k" using e by simp_all
    note s = strategy_fail(1) [where page = page, OF a [OF l1]] strategy_fail(2) [where page = page, OF a [OF l2]]
      strategy_fail(3) [where page = page, OF a [OF l3]]
    show ?thesis unfolding ladder_def Let_def using ok(4) [OF e] ns e
      by (simp add: or_else_success_fst or_else_success_levels or_else_fail_fst
          or_else_fail_levels s level_skipped_def)
  next
    assume e: "k = 5"
    have l1: "(1::nat) < k" and l2: "(2::nat) < k" and l3: "(3::nat) < k"
      and l4: "(4::nat) < k" using e by simp_all
    note s = strategy_fail(1) [where page = page, OF a [OF l1]] strategy_fail(2) [where page = page, OF a [OF l2]]
      strategy_fail(3) [where page = page, OF a [OF l3]] strategy_fail(4) [where page = page, OF a [OF l4]]
    show ?thesis unfolding ladder_def Let_def using ok(5) [OF e] ns e
      by (simp add: or_else_success_fst or_else_success_levels or_else_fail_fst
          or_else_fail_levels s level_skipped_def)
  qed
  then show "fst (ladder page f ty n) = Inr (map (level_tag (intent f) k) rs)"
    and "levels_attempted (snd (ladder page f ty n))
           = filter (\<lambda>l. l \<le> k \<and> \<not> level_skipped f l) [1, 2, 3, 4, 5]"
    by simp_all
qed

lemma strategy_skipped:
  "sk = [] \<Longrightarrow>
     fst (except_Exception (strategy2 page f sk ty n)) = Inr None
     \<and> levels_attempted (snd (except_Exception (strategy2 page f sk ty n))) = []"
  "locations i = [] \<Longrightarrow>
     fst (except_Exception (strategy5 page i ty n)) = Inr None
     \<and> levels_attempted (snd (except_Exception (strategy5 page i ty n))) = []"
  by (simp_all add: strategy2_def strategy5_def skipped_step)

lemma ladder_skipped_level:
  assumes sk: "level_skipped f k"
    and others: "\<forall>l u t m. l \<noteq> k \<longrightarrow> is_fail (page l u t m)"
  shows "fst (ladder page f ty n) = Inr []"
    and "levels_attempted (snd (ladder page f ty n))
           = filter (\<lambda>l. \<not> level_skipped f l) [1, 2, 3, 4, 5]"
proof -
  have a: "\<forall>u t m. is_fail (page l u t m)" if "l \<noteq> k" for l
    using others that by simp
  from sk consider
      (two) "k = 2" "extract_simple_keywords (keywords_raw (intent f)) = []"
    | (five) "k = 5" "locations (intent f) = []"
    by (auto simp add: level_skipped_def)
  then have "fst (ladder page f ty n) = Inr []
     \<and> levels_attempted (snd (ladder page f ty n))
           = filter (\<lambda>l. \<not> level_skipped f l) [1, 2, 3, 4, 5]"
  proof cases
    case two
    have n1: "(1::nat) \<noteq> k" and n3: "(3::nat) \<noteq> k" and n4: "(4::nat) \<noteq> k"
      and n5: "(5::nat) \<noteq> k" using two(1) by simp_all
    note s = strategy_fail(1) [where page = page, OF a [OF n1]]
      strategy_skipped(1) [OF refl]
      strategy_fail(3) [where page = page, OF a [OF n3]]
      strategy_fail(4) [where page = page, OF a [OF n4]]
      strategy_fail(5) [where page = page, OF a [OF n5]]
    show ?thesis unfolding ladder_def Let_def using two(2)
      by (simp add: or_else_fail_fst or_else_fail_levels s level_skipped_def)
  next
    case five
    have n1: "(1::nat) \<noteq> k" and n2: "(2::nat) \<noteq> k" and n3: "(3::nat) \<noteq> k"
      and n4: "(4::nat) \<noteq> k" using five(1) by simp_all
    note s = strategy_fail(1) [where page = page, OF a [OF n1]]
      strategy_fail(2) [where page = page, OF a [OF n2]]
      strategy_fail(3) [where page = page, OF a [OF n3]]
      strategy_fail(4) [where page = page, OF a [OF n4]]
      strategy_skipped(2) [OF five(2)]
    show ?thesis unfolding ladder_def Let_def using five(2)
      by (simp add: or_else_fail_fst or_else_fail_levels s level_skipped_def)
  qed
  then show "fst (ladder page f ty n) = Inr []"
    and "levels_attempted (snd (ladder page f ty n))
           = filter (\<lambda>l. \<not> level_skipped f l) [1, 2, 3, 4, 5]"
    by simp_all
qed

text \<open>The function and its ladder.\<close>

lemma search_ladder:
  "fst (search_with_progressive_fallback page f ty n p) = fst (ladder page f ty n)"
  "driver_log (snd (search_with_progressive_fallback page f ty n p))
     = driver_log p @ snd (ladder page f ty n)"
  "rate_limiter (snd (search_with_progressive_fallback page f ty n p)) = rate_limiter p"
  by (simp_all add: search_with_progressive_fallback_def Let_def)

lemma snd_except_Exception: "snd (except_Exception body) = snd body"
  by (simp add: except_Exception_def split: sum.splits py_exception.splits)

lemma snd_or_else_prefix: "\<exists>more. snd (or_else step rest) = snd step @ more"
  by (simp add: or_else_def split: sum.splits option.splits)

lemma run_search_first:
  "\<exists>rest. snd (run_search page l fs ty w c tag)
     = DriverGet l (build_sales_nav_url fs ty) # rest"
  by (simp add: run_search_def Let_def split: sum.splits)

lemma first_level_attempted:
  "\<exists>url rest. snd (ladder page f ty n) = DriverGet 1 url # rest"
proof -
  obtain rest where r: "snd (strategy1 page f ty n)
      = DriverGet 1 (build_sales_nav_url f ty) # rest"
    using run_search_first unfolding strategy1_def by blast
  obtain more where m: "snd (ladder page f ty n)
      = snd (except_Exception (strategy1 page f ty n)) @ more"
    unfolding ladder_def Let_def using snd_or_else_prefix by blast
  show ?thesis using r m by (simp add: snd_except_Exception)
qed

text \<open>The keys added at the levels 4 and 5.\<close>

lemma tagged_ai_filter_needed:
  "map_of (tag_or_broadening i r) ''ai_filter_needed'' = Some (PBool True)"
  "map_of (tag_ultra_broad i r) ''ai_filter_needed'' = Some (PBool True)"
  by (simp_all add: tag_or_broadening_def tag_ultra_broad_def update_conv')

lemma level_tag_flag:
  "k = 4 \<or> k = 5 \<Longrightarrow> map_of (level_tag i k r) ''ai_filter_needed'' = Some (PBool True)"
  "k \<noteq> 4 \<Longrightarrow> k \<noteq> 5 \<Longrightarrow> level_tag i k r = r"
  by (auto simp add: level_tag_def tagged_ai_filter_needed)

text \<open>The example inputs.\<close>

lemma example_keywords:
  "extract_simple_keywords (keywords_raw (intent valencia_filters)) = [''cto'', ''valencia'']"
  "extract_simple_keywords (keywords_raw (intent nowhere_filters)) = [''cto'']"
  by (simp_all add: valencia_filters_def valencia_intent_def nowhere_filters_def
      nowhere_intent_def extract_simple_keywords_def py_split_def py_lower_def
      py_lower_char_def py_isspace_def py_isalnum_def stop_words_def Let_def)

lemma example_skipped:
  "level_skipped valencia_filters l = False"
  "level_skipped nowhere_filters l = (l = 5)"
  unfolding level_skipped_def example_keywords
  by (simp_all add: valencia_filters_def valencia_intent_def nowhere_filters_def
      nowhere_intent_def)

lemma example_levels:
  "filter (\<lambda>l. \<not> level_skipped valencia_filters l) [1, 2, 3, 4, 5] = [1, 2, 3, 4, 5]"
  "filter (\<lambda>l. l \<le> 4 \<and> \<not> level_skipped valencia_filters l) [1, 2, 3, 4, 5] = [1, 2, 3, 4]"
  "filter (\<lambda>l. \<not> level_skipped nowhere_filters l) [1, 2, 3, 4, 5] = [1, 2, 3, 4]"
  "level_skipped nowhere_filters 5"
  "\<not> level_skipped valencia_filters 4"
  by (simp_all add: example_skipped)

text \<open>
  Claim C1, as stated, fails. A limiter after an emergency stop refuses every search, yet
  the search, with a browser that always returns the empty list, asks for the pages of
  all five levels, and the limiter has recorded none of them: its count of searches is
  the one it had before.
\<close>

theorem search_with_refusing_limiter_counterexample:
  "fst (can_search clock1 0 (emergency_stop clock0 (new_limiter clock0)))
     = Inr (False, ''Temporarily blocked for '' @ fmt_0f 3599 @ '' seconds due to failures'')
   \<and> levels_attempted (driver_log (snd (search_with_progressive_fallback empty_page
        valencia_filters ''people'' 10
        \<lparr> rate_limiter = emergency_stop clock0 (new_limiter clock0), driver_log = [] \<rparr>)))
      = [1, 2, 3, 4, 5]
   \<and> daily_searches (state (emergency_stop clock0 (new_limiter clock0))) = 0
   \<and> daily_searches (state (rate_limiter (snd (search_with_progressive_fallback empty_page
        valencia_filters ''people'' 10
        \<lparr> rate_limiter = emergency_stop clock0 (new_limiter clock0), driver_log = [] \<rparr>))))
      = 0"
proof -
  have b: "now_time clock1
      < blocked_until (state (reset_if_needed clock1 (emergency_stop clock0 (new_limiter clock0))))"
    by (simp add: emergency_stop_def clock0_def clock1_def)
  have 1: "fst (can_search clock1 0 (emergency_stop clock0 (new_limiter clock0)))
     = Inr (False, ''Temporarily blocked for '' @ fmt_0f 3599 @ '' seconds due to failures'')"
    by (simp add: can_search_blocked [OF b]) (simp add: emergency_stop_def clock0_def clock1_def)
  have e: "\<forall>l u t m. is_fail (empty_page l u t m)"
    by (simp add: is_fail_def empty_page_def)
  have 2: "levels_attempted (snd (ladder empty_page valencia_filters ''people'' 10))
      = [1, 2, 3, 4, 5]"
    by (simp add: ladder_all_fail(2) [OF e] example_skipped)
  have 3: "daily_searches (state (emergency_stop clock0 (new_limiter clock0))) = 0"
    by (simp add: emergency_stop_def new_limiter_def default_state_def)
  show ?thesis using 1 2 3 by (simp add: search_ladder levels_attempted_append)
qed

text \<open>
  Claim C1, amended. \<^verbatim>\<open>search_with_progressive_fallback\<close> neither consults nor
  updates the rate limiter: for every query, every browser and every limiter, whatever
  \<^verbatim>\<open>can_search\<close> would answer, the limiter is after the search what it was before (no
  attempt is recorded), the result and the pages asked for do not depend on the limiter,
  and the page of level 1 is always asked for. With a browser that always returns the
  empty list the search returns the empty list after the levels 1, 3 and 4, level 2 when
  the raw keywords give a simple keyword and level 5 when a location was detected, in
  that order.
\<close>

theorem search_ignores_rate_limiter:
  "rate_limiter (snd (search_with_progressive_fallback page f ty n p)) = rate_limiter p
   \<and> fst (search_with_progressive_fallback page f ty n (p\<lparr> rate_limiter := rl \<rparr>))
       = fst (search_with_progressive_fallback page f ty n p)
   \<and> driver_log (snd (search_with_progressive_fallback page f ty n (p\<lparr> rate_limiter := rl \<rparr>)))
       = driver_log (snd (search_with_progressive_fallback page f ty n p))
   \<and> (\<exists>url rest. driver_log (snd (search_with_progressive_fallback page f ty n p))
         = driver_log p @ DriverGet 1 url # rest)
   \<and> ((\<forall>l u t m. page l u t m = Inr []) \<longrightarrow>
        fst (search_with_progressive_fallback page f ty n p) = Inr []
        \<and> levels_attempted (driver_log (snd (search_with_progressive_fallback page f ty n p)))
            = levels_attempted (driver_log p)
              @ filter (\<lambda>l. \<not> level_skipped f l) [1, 2, 3, 4, 5])"
proof -
  have "fst (ladder page f ty n) = Inr []
        \<and> levels_attempted (snd (ladder page f ty n))
            = filter (\<lambda>l. \<not> level_skipped f l) [1, 2, 3, 4, 5]"
    if "\<forall>l u t m. page l u t m = Inr []"
  proof -
    have "\<forall>l u t m. is_fail (page l u t m)" using that by (simp add: is_fail_def)
    from ladder_all_fail [OF this] show ?thesis by simp
  qed
  then show ?thesis
    using first_level_attempted [of page f ty n]
    by (auto simp add: search_ladder levels_attempted_append)
qed

theorem search_ignores_rate_limiter_witness:
  "(\<forall>l u t m. empty_page l u t m = Inr [])
   \<and> fst (search_with_progressive_fallback empty_page valencia_filters ''people'' 10
        fresh_process) = Inr []
   \<and> levels_attempted (driver_log (snd (search_with_progressive_fallback empty_page
        valencia_filters ''people'' 10 fresh_process))) = [1, 2, 3, 4, 5]
   \<and> rate_limiter (snd (search_with_progressive_fallback empty_page valencia_filters
        ''people'' 10 fresh_process)) = new_limiter clock0"
proof -
  have h: "\<forall>l u t m. empty_page l u t m = Inr []" by (simp add: empty_page_def)
  have v: "driver_log fresh_process = []" "rate_limiter fresh_process = new_limiter clock0"
    by (simp_all add: fresh_process_def)
  note t = search_ignores_rate_limiter [of empty_page valencia_filters "''people''" 10
      fresh_process]
  from t have r: "rate_limiter (snd (search_with_progressive_fallback empty_page
      valencia_filters ''people'' 10 fresh_process)) = rate_limiter fresh_process"
    by blast
  from t h have e: "fst (search_with_progressive_fallback empty_page valencia_filters
        ''people'' 10 fresh_process) = Inr []
      \<and> levels_attempted (driver_log (snd (search_with_progressive_fallback empty_page
          valencia_filters ''people'' 10 fresh_process)))
        = levels_attempted (driver_log fresh_process)
          @ filter (\<lambda>l. \<not> level_skipped valencia_filters l) [1, 2, 3, 4, 5]"
    by blast
  show ?thesis using h r e v by (simp add: example_skipped)
qed

text \<open>
  Claim C2, as stated, fails. For a query without a location, a browser that has a
  record at level 5 only is never asked for the page of level 5: the search returns the
  empty list after the levels 1 to 4.
\<close>

theorem success_only_at_level_5_counterexample:
  "only_at 5 [lead_row] 5 (level_url nowhere_filters ''people'' 5) ''people''
       (level_count 10 5) = Inr [lead_row]
   \<and> fst (search_with_progressive_fallback (only_at 5 [lead_row]) nowhere_filters ''people''
        10 fresh_process) = Inr []
   \<and> levels_attempted (driver_log (snd (search_with_progressive_fallback
        (only_at 5 [lead_row]) nowhere_filters ''people'' 10 fresh_process)))
      = [1, 2, 3, 4]"
proof -
  have o: "\<forall>l u t m. l \<noteq> 5 \<longrightarrow> is_fail (only_at 5 [lead_row] l u t m)"
    by (simp add: is_fail_def only_at_def)
  note l = ladder_skipped_level [OF example_levels(4) o, of "''people''" 10]
  have a: "only_at 5 [lead_row] 5 (level_url nowhere_filters ''people'' 5) ''people''
       (level_count 10 5) = Inr [lead_row]"
    by (simp add: only_at_def)
  show ?thesis using l a
    by (simp add: search_ladder levels_attempted_append example_skipped fresh_process_def)
qed

text \<open>
  Claim C2, amended. Level 2 is left out when the raw keywords give no simple keyword
  and level 5 when no location was detected. Let the browser return the empty list at
  every level before \<open>k\<close> (\<open>1 \<le> k \<le> 5\<close>) and a list \<open>rs\<close> that is not empty for the
  request of level \<open>k\<close>. If level \<open>k\<close> is not left out, the search asks for the pages
  of the levels up to \<open>k\<close> that are not left out, in order, and for no later one, and
  returns \<open>rs\<close> at once: as it was extracted when \<open>k \<le> 3\<close>, and with
  \<open>ai_filter_needed = true\<close> set in every record when \<open>k\<close> is 4 or 5; so when the
  extracted records do not carry that key, the returned records carry
  \<open>ai_filter_needed = true\<close> if and only if \<open>k\<close> is 4 or 5. If level \<open>k\<close> is left out
  and every other level returns the empty list, the search asks for the pages of all
  levels that are not left out and returns the empty list.
\<close>

theorem first_success_stops_ladder:
  assumes "1 \<le> k" "k \<le> 5"
    and "\<forall>l<k. \<forall>u t m. page l u t m = Inr []"
    and "page k (level_url f ty k) ty (level_count n k) = Inr rs" "rs \<noteq> []"
  shows
   "(\<not> level_skipped f k \<longrightarrow>
       fst (search_with_progressive_fallback page f ty n p)
         = Inr (map (level_tag (intent f) k) rs)
     \<and> levels_attempted (driver_log (snd (search_with_progressive_fallback page f ty n p)))
         = levels_attempted (driver_log p)
           @ filter (\<lambda>l. l \<le> k \<and> \<not> level_skipped f l) [1, 2, 3, 4, 5]
     \<and> (k \<le> 3 \<longrightarrow> map (level_tag (intent f) k) rs = rs)
     \<and> (k = 4 \<or> k = 5 \<longrightarrow>
          (\<forall>r \<in> set (map (level_tag (intent f) k) rs).
             map_of r ''ai_filter_needed'' = Some (PBool True)))
     \<and> ((\<forall>r \<in> set rs. map_of r ''ai_filter_needed'' = None) \<longrightarrow>
          (\<forall>r \<in> set (map (level_tag (intent f) k) rs).
             (map_of r ''ai_filter_needed'' = Some (PBool True)) = (k = 4 \<or> k = 5))))
    \<and> (level_skipped f k \<and> (\<forall>l u t m. l \<noteq> k \<longrightarrow> page l u t m = Inr []) \<longrightarrow>
       fst (search_with_progressive_fallback page f ty n p) = Inr []
     \<and> levels_attempted (driver_log (snd (search_with_progressive_fallback page f ty n p)))
         = levels_attempted (driver_log p)
           @ filter (\<lambda>l. \<not> level_skipped f l) [1, 2, 3, 4, 5])"
proof (intro conjI impI)
  assume ns: "\<not> level_skipped f k"
  note l = ladder_first_success [OF assms ns]
  show "fst (search_with_progressive_fallback page f ty n p)
         = Inr (map (level_tag (intent f) k) rs)"
    using l by (simp add: search_ladder)
  show "levels_attempted (driver_log (snd (search_with_progressive_fallback page f ty n p)))
         = levels_attempted (driver_log p)
           @ filter (\<lambda>l. l \<le> k \<and> \<not> level_skipped f l) [1, 2, 3, 4, 5]"
    using l by (simp add: search_ladder levels_attempted_append)
next
  assume "k \<le> 3"
  then have "level_tag (intent f) k = id" by (auto simp add: level_tag_def)
  then show "map (level_tag (intent f) k) rs = rs" by simp
next
  assume "k = 4 \<or> k = 5"
  then show "\<forall>r \<in> set (map (level_tag (intent f) k) rs).
             map_of r ''ai_filter_needed'' = Some (PBool True)"
    by (auto simp add: level_tag_flag(1))
next
  assume clean: "\<forall>r \<in> set rs. map_of r ''ai_filter_needed'' = None"
  show "\<forall>r \<in> set (map (level_tag (intent f) k) rs).
             (map_of r ''ai_filter_needed'' = Some (PBool True)) = (k = 4 \<or> k = 5)"
  proof (cases "k = 4 \<or> k = 5")
    case True
    then show ?thesis by (auto simp add: level_tag_flag(1))
  next
    case False
    then have "level_tag (intent f) k = id" by (auto simp add: level_tag_def)
    then show ?thesis using False clean by simp
  qed
next
  assume s: "level_skipped f k \<and> (\<forall>l u t m. l \<noteq> k \<longrightarrow> page l u t m = Inr [])"
  then have o: "\<forall>l u t m. l \<noteq> k \<longrightarrow> is_fail (page l u t m)" by (simp add: is_fail_def)
  from s have sk: "level_skipped f k" by simp
  note l = ladder_skipped_level [OF sk o, of ty n]
  show "fst (search_with_progressive_fallback page f ty n p) = Inr []"
    using l by (simp add: search_ladder)
  show "levels_attempted (driver_log (snd (search_with_progressive_fallback page f ty n p)))
         = levels_attempted (driver_log p)
           @ filter (\<lambda>l. \<not> level_skipped f l) [1, 2, 3, 4, 5]"
    using l by (simp add: search_ladder levels_attempted_append)
qed

theorem first_success_stops_ladder_witness:
  "only_at 4 [lead_row] 3 (level_url valencia_filters ''people'' 3) ''people''
       (level_count 10 3) = Inr []
   \<and> only_at 4 [lead_row] 4 (level_url valencia_filters ''people'' 4) ''people''
       (level_count 10 4) = Inr [lead_row]
   \<and> level_skipped valencia_filters 4 = False
   \<and> map_of lead_row ''ai_filter_needed'' = None
   \<and> fst (search_with_progressive_fallback (only_at 4 [lead_row]) valencia_filters ''people''
        10 fresh_process) = Inr [level_tag valencia_intent 4 lead_row]
   \<and> levels_attempted (driver_log (snd (search_with_progressive_fallback
        (only_at 4 [lead_row]) valencia_filters ''people'' 10 fresh_process))) = [1, 2, 3, 4]
   \<and> map_of (level_tag valencia_intent 4 lead_row) ''ai_filter_needed'' = Some (PBool True)"
proof -
  have h: "(1::nat) \<le> 4" "(4::nat) \<le> 5"
    "\<forall>l<4. \<forall>u t m. only_at 4 [lead_row] l u t m = Inr []"
    "only_at 4 [lead_row] 4 (level_url valencia_filters ''people'' 4) ''people''
       (level_count 10 4) = Inr [lead_row]"
    "[lead_row] \<noteq> []"
    by (simp_all add: only_at_def)
  have c: "\<forall>r \<in> set [lead_row]. map_of r ''ai_filter_needed'' = None"
    by (simp add: lead_row_def)
  have v: "driver_log fresh_process = []" "intent valencia_filters = valencia_intent"
    by (simp_all add: fresh_process_def valencia_filters_def)
  note t = first_success_stops_ladder [OF h, where p = fresh_process]
  from t example_levels(5)
  have r: "fst (search_with_progressive_fallback (only_at 4 [lead_row]) valencia_filters
        ''people'' 10 fresh_process)
         = Inr (map (level_tag (intent valencia_filters) 4) [lead_row])"
    and e: "levels_attempted (driver_log (snd (search_with_progressive_fallback
        (only_at 4 [lead_row]) valencia_filters ''people'' 10 fresh_process)))
         = levels_attempted (driver_log fresh_process)
           @ filter (\<lambda>l. l \<le> 4 \<and> \<not> level_skipped valencia_filters l) [1, 2, 3, 4, 5]"
    and g: "\<forall>r \<in> set (map (level_tag (intent valencia_filters) 4) [lead_row]).
             map_of r ''ai_filter_needed'' = Some (PBool True)"
    by blast+
  have b: "only_at 4 [lead_row] 3 (level_url valencia_filters ''people'' 3) ''people''
       (level_count 10 3) = Inr []"
    by (simp add: only_at_def)
  show ?thesis using b h(4) c r e g v by (simp add: example_skipped)
qed















section \<open>Properties of the keyword expression\<close>

lemma count_list_join:
  "c \<notin> set sep \<Longrightarrow> count_list (join sep xs) c = sum_list (map (\<lambda>x. count_list x c) xs)"
  by (induction sep xs rule: join.induct) simp_all

lemma count_list_quoted:
  "CHR 0x22 \<notin> set r \<Longrightarrow> count_list (quoted r) (CHR 0x22) = 2"
  by (simp add: quoted_def)

lemma sum_list_const_two:
  "(\<forall>x \<in> set xs. f x = (2::nat)) \<Longrightarrow> sum_list (map f xs) = 2 * length xs"
  by (induction xs) simp_all

lemma sum_list_const_zero:
  "(\<forall>x \<in> set xs. f x = (0::nat)) \<Longrightarrow> sum_list (map f xs) = 0"
  by (induction xs) simp_all

lemma collect_keywords_alnum:
  "w \<in> set (collect_keywords ws) \<Longrightarrow> c \<in> set w \<Longrightarrow> py_isalnum c"
  by (induction ws) (auto simp add: Let_def split: if_splits)

lemma simple_keywords_unquoted:
  "w \<in> set (extract_simple_keywords q) \<Longrightarrow> count_list w (CHR 0x22) = 0"
proof -
  assume w: "w \<in> set (extract_simple_keywords q)"
  have "\<not> py_isalnum (CHR 0x22)" by (simp add: py_isalnum_def)
  then have "CHR 0x22 \<notin> set w"
    using collect_keywords_alnum [of w "py_split (py_lower q)" "CHR 0x22"] w
    by (auto simp add: extract_simple_keywords_def)
  then show ?thesis by simp
qed

lemma quotes_in_roles:
  assumes "\<forall>r \<in> set rs. CHR 0x22 \<notin> set r"
  shows "count_list (join '' OR '' (map quoted (take 2 rs))) (CHR 0x22) = 2 * min 2 (length rs)"
proof -
  have "\<forall>x \<in> set (take 2 rs). count_list (quoted x) (CHR 0x22) = 2"
    using assms by (auto dest: in_set_takeD simp add: count_list_quoted)
  then have "sum_list (map (\<lambda>x. count_list (quoted x) (CHR 0x22)) (take 2 rs))
      = 2 * length (take 2 rs)"
    by (rule sum_list_const_two)
  then show ?thesis by (simp add: count_list_join comp_def min.commute)
qed

lemma quotes_in_skills:
  assumes "\<forall>r \<in> set ss. CHR 0x22 \<notin> set r"
  shows "count_list (join '' OR '' (take 2 ss)) (CHR 0x22) = 0"
proof -
  have "\<forall>x \<in> set (take 2 ss). count_list x (CHR 0x22) = 0"
    using assms by (auto dest: in_set_takeD)
  then have "sum_list (map (\<lambda>x. count_list x (CHR 0x22)) (take 2 ss)) = 0"
    by (rule sum_list_const_zero)
  then show ?thesis by (simp add: count_list_join)
qed

lemma quotes_in_simple_keywords:
  "count_list (join '' OR '' (take 2 (extract_simple_keywords q))) (CHR 0x22) = 0"
proof -
  have "\<forall>x \<in> set (take 2 (extract_simple_keywords q)). count_list x (CHR 0x22) = 0"
    by (auto dest: in_set_takeD simp add: simple_keywords_unquoted)
  then have "sum_list (map (\<lambda>x. count_list x (CHR 0x22)) (take 2 (extract_simple_keywords q)))
      = 0"
    by (rule sum_list_const_zero)
  then show ?thesis by (simp add: count_list_join)
qed

text \<open>
  Claim C8. The keyword expression is built from the first two roles and the first two
  skills only: it is the expression of the intent cut down to them, whatever else was
  matched. With roles and skills it is \<open>(r1 OR r2) AND (s1 OR s2)\<close>, the roles between
  double quotes; with three roles and no skill it is \<open>(r1 OR r2)\<close>, with three skills
  and no role it is \<open>s1 OR s2\<close>. When no role and no skill holds a double quote, the
  expression holds exactly two double quotes for each of at most two roles, so at most
  two quoted role terms.
\<close>

theorem optimized_keywords_bounded:
  "generate_optimized_keywords i
     = generate_optimized_keywords (i\<lparr> roles := take 2 (roles i), skills := take 2 (skills i) \<rparr>)
   \<and> (roles i \<noteq> [] \<and> skills i \<noteq> [] \<longrightarrow>
        generate_optimized_keywords i
          = ''('' @ join '' OR '' (map quoted (take 2 (roles i))) @ '') AND (''
            @ join '' OR '' (take 2 (skills i)) @ '')'')
   \<and> (roles i = [r1, r2, r3] \<and> skills i = [] \<longrightarrow>
        generate_optimized_keywords i = ''('' @ quoted r1 @ '' OR '' @ quoted r2 @ '')'')
   \<and> (roles i = [] \<and> skills i = [s1, s2, s3] \<longrightarrow>
        generate_optimized_keywords i = s1 @ '' OR '' @ s2)
   \<and> ((\<forall>r \<in> set (roles i) \<union> set (skills i). CHR 0x22 \<notin> set r) \<longrightarrow>
        count_list (generate_optimized_keywords i) (CHR 0x22) = 2 * min 2 (length (roles i)))"
proof (intro conjI impI)
  show "generate_optimized_keywords i
     = generate_optimized_keywords (i\<lparr> roles := take 2 (roles i), skills := take 2 (skills i) \<rparr>)"
    by (simp add: generate_optimized_keywords_def Let_def)
next
  assume "roles i \<noteq> [] \<and> skills i \<noteq> []"
  then show "generate_optimized_keywords i
          = ''('' @ join '' OR '' (map quoted (take 2 (roles i))) @ '') AND (''
            @ join '' OR '' (take 2 (skills i)) @ '')''"
    by (simp add: generate_optimized_keywords_def Let_def)
next
  assume "roles i = [r1, r2, r3] \<and> skills i = []"
  then show "generate_optimized_keywords i = ''('' @ quoted r1 @ '' OR '' @ quoted r2 @ '')''"
    by (simp add: generate_optimized_keywords_def Let_def numeral_2_eq_2)
next
  assume "roles i = [] \<and> skills i = [s1, s2, s3]"
  then show "generate_optimized_keywords i = s1 @ '' OR '' @ s2"
    by (simp add: generate_optimized_keywords_def Let_def numeral_2_eq_2)
next
  assume q: "\<forall>r \<in> set (roles i) \<union> set (skills i). CHR 0x22 \<notin> set r"
  then have qr: "\<forall>r \<in> set (roles i). CHR 0x22 \<notin> set r"
    and qs: "\<forall>r \<in> set (skills i). CHR 0x22 \<notin> set r" by auto
  note c = quotes_in_roles [OF qr] quotes_in_skills [OF qs]
    quotes_in_simple_keywords [of "keywords_raw i"]
  show "count_list (generate_optimized_keywords i) (CHR 0x22) = 2 * min 2 (length (roles i))"
    using c by (simp add: generate_optimized_keywords_def Let_def)
qed

theorem optimized_keywords_bounded_witness:
  "roles three_roles_intent = [''cto'', ''ceo'', ''developer'']
   \<and> skills three_roles_intent = []
   \<and> generate_optimized_keywords three_roles_intent
       = ''('' @ quoted ''cto'' @ '' OR '' @ quoted ''ceo'' @ '')''
   \<and> count_list (generate_optimized_keywords three_roles_intent) (CHR 0x22) = 4"
proof -
  have h: "roles three_roles_intent = [''cto'', ''ceo'', ''developer'']
      \<and> skills three_roles_intent = []"
    by (simp add: three_roles_intent_def)
  have q: "\<forall>r \<in> set (roles three_roles_intent) \<union> set (skills three_roles_intent).
      CHR 0x22 \<notin> set r"
    by (simp add: three_roles_intent_def)
  have l: "2 * min 2 (length (roles three_roles_intent)) = 4"
    by (simp add: three_roles_intent_def)
  note t = optimized_keywords_bounded [of three_roles_intent "''cto''" "''ceo''"
      "''developer''"]
  from t h have a: "generate_optimized_keywords three_roles_intent
       = ''('' @ quoted ''cto'' @ '' OR '' @ quoted ''ceo'' @ '')''"
    by blast
  from t q have b: "count_list (generate_optimized_keywords three_roles_intent) (CHR 0x22)
       = 2 * min 2 (length (roles three_roles_intent))"
    by blast
  show ?thesis using h a b l by simp
qed

end
